theory Spec2Isabelle
  imports Complex_Main
begin

section \<open>Steady-state transport: assembly, boundary conditions, validation\<close>

text \<open>
  A shallow embedding of \<^verbatim>\<open>openpnm/algorithms/_transport.py\<close> (class
  \<^verbatim>\<open>Transport\<close>): the construction of the coefficient matrix from throat
  conductances, the injection of rate and value boundary conditions into \<open>A\<close> and \<open>b\<close>,
  the pre-solve validations and \<^verbatim>\<open>run\<close>.
\<close>

subsection \<open>numpy floats\<close>

text \<open>
  A float64 is either a finite number, one of the two infinities, or not-a-number. The
  two zeros are not told apart. The sum, the product and the quotient of finite numbers
  are the exact results rounded to the nearest float64, ties to the even mantissa, with
  overflow to an infinity; the special values follow IEEE 754, which is what
  \<^verbatim>\<open>np.isnan\<close> and \<^verbatim>\<open>np.isfinite\<close> observe.
\<close>

datatype fl = Fin real | PInf | NInf | NaN

fun isfinite :: "fl \<Rightarrow> bool" where
  "isfinite (Fin _) = True"
| "isfinite _ = False"

fun isnan :: "fl \<Rightarrow> bool" where
  "isnan NaN = True"
| "isnan _ = False"

fun fneg :: "fl \<Rightarrow> fl" where
  "fneg (Fin a) = Fin (- a)"
| "fneg PInf = NInf"
| "fneg NInf = PInf"
| "fneg NaN = NaN"

text \<open>
  Rounding to float64. A finite float64 is \<open>m * 2 ^ e\<close> with an integer \<open>m\<close> below
  \<open>2 ^ 53\<close> in magnitude and \<open>e\<close> from \<open>-1074\<close> to \<open>971\<close>. \<open>ilog2 a\<close> is the
  binary exponent of a positive \<open>a\<close> (found by halving or doubling, as far as the
  exponents of float64 go), \<open>expo x\<close> the exponent of the last mantissa bit at the
  magnitude of \<open>x\<close>, and \<open>rhe\<close> rounds to the nearest integer, a tie to the even one.
\<close>

definition pow2 :: "int \<Rightarrow> real" where
  "pow2 e = (if 0 \<le> e then 2 ^ nat e else 1 / 2 ^ nat (- e))"

definition rhe :: "real \<Rightarrow> int" where
  "rhe y = (let f = \<lfloor>y\<rfloor>; d = y - of_int f
            in if d < 1 / 2 then f else if 1 / 2 < d then f + 1 else if even f then f else f + 1)"

fun ilog2_up :: "nat \<Rightarrow> real \<Rightarrow> int" where
  "ilog2_up 0 a = 0"
| "ilog2_up (Suc n) a = (if a < 2 then 0 else 1 + ilog2_up n (a / 2))"

fun ilog2_down :: "nat \<Rightarrow> real \<Rightarrow> int" where
  "ilog2_down 0 a = 0"
| "ilog2_down (Suc n) a = (if 1 \<le> a then 0 else ilog2_down n (2 * a) - 1)"

definition ilog2 :: "real \<Rightarrow> int" where
  "ilog2 a = (if 1 \<le> a then ilog2_up 1100 a else ilog2_down 1100 a)"

definition expo :: "real \<Rightarrow> int" where
  "expo x = max (ilog2 \<bar>x\<bar> - 52) (- 1074)"

definition round64 :: "real \<Rightarrow> fl" where
  "round64 x =
     (let e = expo x; y = of_int (rhe (x / pow2 e)) * pow2 e
      in if pow2 1024 \<le> \<bar>y\<bar> then (if 0 < x then PInf else NInf) else Fin y)"

text \<open>Addition. Adding zero changes nothing and does not round.\<close>

fun fadd :: "fl \<Rightarrow> fl \<Rightarrow> fl" where
  "fadd NaN _ = NaN"
| "fadd _ NaN = NaN"
| "fadd (Fin a) (Fin b) = (if a = 0 then Fin b else if b = 0 then Fin a else round64 (a + b))"
| "fadd PInf NInf = NaN"
| "fadd NInf PInf = NaN"
| "fadd PInf _ = PInf"
| "fadd _ PInf = PInf"
| "fadd NInf _ = NInf"
| "fadd _ NInf = NInf"

definition fsub :: "fl \<Rightarrow> fl \<Rightarrow> fl" where
  "fsub a b = fadd a (fneg b)"

text \<open>The product of an infinity with a finite number: its sign, or NaN at zero.\<close>

definition inf_times :: "bool \<Rightarrow> real \<Rightarrow> fl" where
  "inf_times pos r =
     (if r = 0 then NaN else if (0 < r) = pos then PInf else NInf)"

fun fmul :: "fl \<Rightarrow> fl \<Rightarrow> fl" where
  "fmul NaN _ = NaN"
| "fmul _ NaN = NaN"
| "fmul (Fin a) (Fin b) = round64 (a * b)"
| "fmul PInf (Fin b) = inf_times True b"
| "fmul NInf (Fin b) = inf_times False b"
| "fmul (Fin a) PInf = inf_times True a"
| "fmul (Fin a) NInf = inf_times False a"
| "fmul PInf PInf = PInf"
| "fmul NInf NInf = PInf"
| "fmul PInf NInf = NInf"
| "fmul NInf PInf = NInf"

text \<open>
  The sum of a float array, accumulated from 0.0 in the order of the array, as the
  loops of scipy's sparse matrices do. (\<^verbatim>\<open>np.sum\<close> adds long arrays in blocks; no
  statement below depends on the order in which a mean is accumulated.)
\<close>

definition fsum :: "fl list \<Rightarrow> fl" where
  "fsum xs = foldl fadd (Fin 0) xs"

text \<open>
  \<^verbatim>\<open>ndarray.mean()\<close>: the sum divided by the number of entries; the mean of
  an empty array is 0.0/0 = NaN.
\<close>

fun fdiv_count :: "fl \<Rightarrow> nat \<Rightarrow> fl" where
  "fdiv_count (Fin a) n = (if n = 0 then NaN else round64 (a / real n))"
| "fdiv_count x n = x"

definition mean :: "fl list \<Rightarrow> fl" where
  "mean xs = fdiv_count (fsum xs) (length xs)"

text \<open>\<^verbatim>\<open>np.zeros(n)\<close> and \<^verbatim>\<open>np.zeros_like(v)\<close>.\<close>

definition zeros :: "nat \<Rightarrow> fl list" where
  "zeros n = replicate n (Fin 0)"

subsection \<open>Sparse matrices in coordinate form\<close>

text \<open>
  A scipy \<^verbatim>\<open>coo_matrix\<close> of shape \<open>(n, n)\<close> keeps three parallel arrays
  \<^verbatim>\<open>row\<close>, \<^verbatim>\<open>col\<close>, \<^verbatim>\<open>data\<close>; they are kept here as one list of
  triples. The same position may be stored several times; the matrix it denotes has the
  sum of the duplicates there, and zero where nothing is stored.
\<close>

record coo =
  dim :: nat
  trip :: "(nat \<times> nat \<times> fl) list"

definition entry :: "coo \<Rightarrow> nat \<Rightarrow> nat \<Rightarrow> fl" where
  "entry M i j = fsum (map (\<lambda>(r, c, d). d) (filter (\<lambda>(r, c, d). r = i \<and> c = j) (trip M)))"

text \<open>\<^verbatim>\<open>M.diagonal()\<close>: a dense array of length \<open>n\<close>, duplicates summed.\<close>

definition diagonal :: "coo \<Rightarrow> fl list" where
  "diagonal M = map (\<lambda>i. entry M i i) [0..<dim M]"

text \<open>\<^verbatim>\<open>M.sum(axis=0)\<close>: the column sums.\<close>

definition col_sums :: "coo \<Rightarrow> fl list" where
  "col_sums M =
     map (\<lambda>j. fsum (map (\<lambda>(r, c, d). d) (filter (\<lambda>(r, c, d). c = j) (trip M)))) [0..<dim M]"

text \<open>\<^verbatim>\<open>M * x\<close> for a dense vector \<open>x\<close>: the matrix-vector product.\<close>

definition matvec :: "coo \<Rightarrow> fl list \<Rightarrow> fl list" where
  "matvec M x =
     map (\<lambda>i. fsum (map (\<lambda>(r, c, d). fmul d (x ! c)) (filter (\<lambda>(r, c, d). r = i) (trip M))))
       [0..<dim M]"

text \<open>
  \<^verbatim>\<open>M.setdiag(values)\<close> on a coo matrix: every stored triple of the main
  diagonal (below the number of values given) is dropped and one triple per value is
  appended.
\<close>

definition setdiag :: "coo \<Rightarrow> fl list \<Rightarrow> coo" where
  "setdiag M vals =
     (let max_index = min (dim M) (length vals)
      in M\<lparr>trip := filter (\<lambda>(r, c, d). c \<noteq> r \<or> max_index \<le> r) (trip M)
                     @ map (\<lambda>i. (i, i, vals ! i)) [0..<max_index]\<rparr>)"

text \<open>\<^verbatim>\<open>M.eliminate_zeros()\<close>: keeps the triples with \<^verbatim>\<open>data != 0\<close>.\<close>

definition eliminate_zeros :: "coo \<Rightarrow> coo" where
  "eliminate_zeros M = M\<lparr>trip := filter (\<lambda>(r, c, d). d \<noteq> Fin 0) (trip M)\<rparr>"

text \<open>\<^verbatim>\<open>np.isfinite(M.data).all()\<close>.\<close>

definition data_finite :: "coo \<Rightarrow> bool" where
  "data_finite M = list_all (\<lambda>(r, c, d). isfinite d) (trip M)"

subsection \<open>The network's adjacency matrix and its Laplacian\<close>

text \<open>
  Modelled from the spec: \<^verbatim>\<open>Network.create_adjacency_matrix(weights=g, fmt='coo')\<close>
  is not part of the sources at hand. The specification (sections 4.1 and 6) describes it
  as the builder that takes a per-throat weight array and returns a sparse \<open>Np \<times> Np\<close>
  structure in coordinate form over the throat endpoints, stored symmetrically (each
  throat once in each direction with the same weight), and that fails when the length of
  the weights does not match \<open>Nt\<close>.
\<close>

definition create_adjacency_matrix :: "nat \<Rightarrow> (nat \<times> nat) list \<Rightarrow> fl list \<Rightarrow> coo option" where
  "create_adjacency_matrix Np conns g =
     (if length g \<noteq> length conns then None
      else Some \<lparr>dim = Np,
                 trip = map (\<lambda>((a, b), w). (a, b, w)) (zip conns g)
                      @ map (\<lambda>((a, b), w). (b, a, w)) (zip conns g)\<rparr>)"

text \<open>
  \<^verbatim>\<open>scipy.sparse.csgraph.laplacian(am)\<close> (library code, called with its
  defaults): with \<open>w\<close> the column sums of \<open>am\<close> minus its diagonal, the stored data are
  negated and the diagonal is set to \<open>w\<close>; that is \<open>L = D - A\<close>.
\<close>

definition laplacian :: "coo \<Rightarrow> coo" where
  "laplacian m =
     (let w = map (\<lambda>(s, d). fsub s d) (zip (col_sums m) (diagonal m))
      in setdiag (m\<lparr>trip := map (\<lambda>(r, c, d). (r, c, fneg d)) (trip m)\<rparr>) w)"

subsection \<open>Connectivity of the network\<close>

text \<open>
  Modelled from the spec: \<^verbatim>\<open>openpnm.topotools.is_fully_connected\<close> is not
  part of the sources at hand. The specification (section 4.5) asks that the pores
  carrying an active boundary condition reach every connected component of the network:
  the check fails as soon as one component has no such pore. The pores reached from the
  marked ones are computed by marking neighbours, once per pore.
\<close>

definition mark_step :: "(nat \<times> nat) list \<Rightarrow> bool list \<Rightarrow> bool list" where
  "mark_step conns m =
     map (\<lambda>i. m ! i \<or>
                list_ex (\<lambda>(a, b). (a = i \<and> b < length m \<and> m ! b) \<or>
                                   (b = i \<and> a < length m \<and> m ! a)) conns)
       [0..<length m]"

fun mark_rounds :: "nat \<Rightarrow> (nat \<times> nat) list \<Rightarrow> bool list \<Rightarrow> bool list" where
  "mark_rounds 0 conns m = m"
| "mark_rounds (Suc k) conns m = mark_rounds k conns (mark_step conns m)"

definition is_fully_connected :: "nat \<Rightarrow> (nat \<times> nat) list \<Rightarrow> bool list \<Rightarrow> bool" where
  "is_fully_connected n conns pores_BC =
     list_all (\<lambda>i. i < length pores_BC \<and> mark_rounds n conns pores_BC ! i) [0..<n]"

subsection \<open>The algorithm object\<close>

text \<open>
  Python exceptions. \<open>Exception\<close> carries the message of the \<^verbatim>\<open>raise\<close>
  statement. \<open>FoundNans\<close> stands for the exceptions raised by the root-cause search of
  \<^verbatim>\<open>_validate_data_health\<close>; each of its messages starts with "Found nans in A
  matrix", the rest depends on the dependency graph of the phase.
\<close>

datatype error =
    Exception string
  | KeyError string
  | IndexError
  | ValueError
  | TypeError
  | AttributeError
  | FoundNans

datatype 'a outcome = Ok 'a | Raise error

text \<open>
  The solution container: the solution arrays by quantity name and the convergence flag.
\<close>

record solution_container =
  sol :: "string option \<Rightarrow> fl list option"
  is_converged :: bool

text \<open>
  The state of a \<^verbatim>\<open>Transport\<close> object together with what it reads from its
  project: the network (\<open>Np\<close>, \<open>conns\<close>), the objects of the project by name (the
  phase holds the conductance array) and the properties that are recomputed at every
  iteration. A setting is \<open>None\<close> when it is Python's \<^verbatim>\<open>None\<close>. The matrices
  \<^verbatim>\<open>_A\<close> and \<^verbatim>\<open>_pure_A\<close> are references into a store of matrix
  objects, since \<^verbatim>\<open>_apply_BCs\<close> edits \<open>A\<close> in place; \<open>next_ref\<close> is the next
  unused reference. \<open>solver_calls\<close> counts the calls of \<^verbatim>\<open>solver.solve\<close>; it
  is an observation of the run, not a field of the object.
\<close>

record alg =
  Np :: nat
  conns :: "(nat \<times> nat) list"
  project :: "string \<Rightarrow> (string \<Rightarrow> fl list option) option"
  iterative_props :: "string list"
  set_phase :: "string option"
  set_quantity :: "string option"
  set_conductance :: "string option"
  set_cache :: bool
  props :: "string \<Rightarrow> fl list option"
  A_ref :: "nat option"
  pure_A_ref :: "nat option"
  b_vec :: "fl list option"
  pure_b :: "fl list option"
  store :: "nat \<Rightarrow> coo"
  next_ref :: nat
  soln :: "solution_container option"
  solver_calls :: nat

type_synonym 'a action = "alg \<Rightarrow> 'a outcome \<times> alg"

text \<open>Sequencing: a raised exception ends the action and keeps the state reached.\<close>

definition bind :: "'a action \<Rightarrow> ('a \<Rightarrow> 'b action) \<Rightarrow> 'b action" where
  "bind m k s = (case m s of (Ok a, s') \<Rightarrow> k a s' | (Raise e, s') \<Rightarrow> (Raise e, s'))"

definition ret :: "'a \<Rightarrow> 'a action" where
  "ret a s = (Ok a, s)"

definition raise :: "error \<Rightarrow> 'a action" where
  "raise e s = (Raise e, s)"

definition modify :: "(alg \<Rightarrow> alg) \<Rightarrow> unit action" where
  "modify f s = (Ok (), f s)"

text \<open>A new matrix object in the store.\<close>

definition alloc :: "coo \<Rightarrow> nat action" where
  "alloc M s = (Ok (next_ref s), s\<lparr>store := (store s)(next_ref s := M), next_ref := Suc (next_ref s)\<rparr>)"

text \<open>\<^verbatim>\<open>self[key]\<close> and \<^verbatim>\<open>self[key] = value\<close>.\<close>

definition getitem :: "string \<Rightarrow> fl list action" where
  "getitem key s = (case props s key of None \<Rightarrow> (Raise (KeyError key), s) | Some v \<Rightarrow> (Ok v, s))"

definition setitem :: "string \<Rightarrow> fl list \<Rightarrow> unit action" where
  "setitem key v s = (Ok (), s\<lparr>props := (props s)(key := Some v)\<rparr>)"

text \<open>The property \<^verbatim>\<open>x\<close>: the array stored under the quantity's name.\<close>

definition get_x :: "fl list action" where
  "get_x s = (case set_quantity s of None \<Rightarrow> (Raise TypeError, s) | Some q \<Rightarrow> getitem q s)"

definition set_x :: "fl list \<Rightarrow> unit action" where
  "set_x v s = (case set_quantity s of None \<Rightarrow> (Raise TypeError, s) | Some q \<Rightarrow> setitem q v s)"

text \<open>
  \<^verbatim>\<open>self.project[self.settings.phase]\<close> and the conductance array
  \<^verbatim>\<open>phase[gvals]\<close>.
\<close>

definition lookup_phase :: "(string \<Rightarrow> fl list option) action" where
  "lookup_phase s =
     (case set_phase s of
        None \<Rightarrow> (Raise (KeyError []), s)
      | Some ph \<Rightarrow> (case project s ph of
                     None \<Rightarrow> (Raise (KeyError ph), s)
                   | Some phase \<Rightarrow> (Ok phase, s)))"

definition lookup_conductance :: "fl list action" where
  "lookup_conductance =
     bind lookup_phase (\<lambda>phase s.
       case set_conductance s of
         None \<Rightarrow> (Raise (KeyError []), s)
       | Some gk \<Rightarrow> (case phase gk of
                      None \<Rightarrow> (Raise (KeyError gk), s)
                    | Some g \<Rightarrow> (Ok g, s)))"

definition adjacency :: "fl list \<Rightarrow> coo action" where
  "adjacency g s =
     (case create_adjacency_matrix (Np s) (conns s) g of
        None \<Rightarrow> (Raise (Exception ''Received weights are of incorrect length''), s)
      | Some am \<Rightarrow> (Ok am, s))"

text \<open>\<^verbatim>\<open>self.A = self._pure_A.copy()\<close>: the copy is a new matrix object.\<close>

definition copy_pure_to_A :: "unit action" where
  "copy_pure_to_A s =
     (case pure_A_ref s of
        None \<Rightarrow> (Raise TypeError, s)
      | Some p \<Rightarrow> bind (alloc (store s p)) (\<lambda>a. modify (\<lambda>s'. s'\<lparr>A_ref := Some a\<rparr>)) s)"

text \<open>
  \<^verbatim>\<open>_build_A\<close>. The pure matrix is rebuilt when there is none, when caching is
  off, or when the conductance is an iterative property (which turns caching off); the
  live \<open>A\<close> is then a copy of the pure matrix.
\<close>

definition build_A :: "unit action" where
  "build_A =
     bind (modify (\<lambda>s. if (case set_conductance s of None \<Rightarrow> False
                                   | Some gvals \<Rightarrow> gvals \<in> set (iterative_props s))
                        then s\<lparr>set_cache := False\<rparr> else s)) (\<lambda>_.
     bind (modify (\<lambda>s. if \<not> set_cache s then s\<lparr>pure_A_ref := None\<rparr> else s)) (\<lambda>_.
     bind (\<lambda>s. if pure_A_ref s = None
               then bind lookup_conductance (\<lambda>g.
                    bind (adjacency g) (\<lambda>am.
                    bind (alloc (laplacian am)) (\<lambda>p.
                    modify (\<lambda>s'. s'\<lparr>pure_A_ref := Some p\<rparr>)))) s
               else (Ok (), s)) (\<lambda>_.
     copy_pure_to_A)))"

text \<open>\<^verbatim>\<open>_build_b\<close>: a vector of zeros.\<close>

definition build_b :: "unit action" where
  "build_b = modify (\<lambda>s. let b = zeros (Np s) in s\<lparr>pure_b := Some b, b_vec := Some b\<rparr>)"

text \<open>The properties \<^verbatim>\<open>A\<close> and \<^verbatim>\<open>b\<close>: built on first use.\<close>

definition get_A :: "nat action" where
  "get_A s =
     (case A_ref s of
        Some a \<Rightarrow> (Ok a, s)
      | None \<Rightarrow> bind build_A (\<lambda>_ s'. (case A_ref s' of Some a \<Rightarrow> (Ok a, s')
                                                   | None \<Rightarrow> (Raise TypeError, s'))) s)"

definition get_b :: "fl list action" where
  "get_b s =
     (case b_vec s of
        Some b \<Rightarrow> (Ok b, s)
      | None \<Rightarrow> bind build_b (\<lambda>_ s'. (case b_vec s' of Some b \<Rightarrow> (Ok b, s')
                                                   | None \<Rightarrow> (Raise TypeError, s'))) s)"

subsection \<open>Boundary conditions\<close>

text \<open>
  Modelled from the spec: \<^verbatim>\<open>to_indices\<close> belongs to the index resolver,
  which is not part of the sources at hand; it maps a boolean mask to the integer indices
  of its true entries (specification, section 2).
\<close>

definition to_indices :: "bool list \<Rightarrow> nat list" where
  "to_indices ind = filter (\<lambda>i. ind ! i) [0..<length ind]"

text \<open>
  Assignments through a boolean mask of the length of \<open>b\<close>:
  \<^verbatim>\<open>b[ind] = vals[ind]\<close> and \<^verbatim>\<open>b[~ind] -= y[~ind]\<close>; and through a
  list of indices: \<^verbatim>\<open>d[P] = f\<close>.
\<close>

definition mask_assign :: "fl list \<Rightarrow> bool list \<Rightarrow> fl list \<Rightarrow> fl list" where
  "mask_assign b ind vals = map (\<lambda>i. if ind ! i then vals ! i else b ! i) [0..<length b]"

definition mask_sub :: "fl list \<Rightarrow> bool list \<Rightarrow> fl list \<Rightarrow> fl list" where
  "mask_sub b ind y = map (\<lambda>i. if ind ! i then b ! i else fsub (b ! i) (y ! i)) [0..<length b]"

definition index_assign :: "fl list \<Rightarrow> nat list \<Rightarrow> fl \<Rightarrow> fl list" where
  "index_assign d P f = map (\<lambda>i. if i \<in> set P then f else d ! i) [0..<length d]"

text \<open>
  \<^verbatim>\<open>A.data[np.isin(A.row, P) | np.isin(A.col, P)] = 0\<close>: the stored entries
  of the rows and columns in \<open>P\<close> become zero.
\<close>

definition zero_rows_cols :: "nat list \<Rightarrow> coo \<Rightarrow> coo" where
  "zero_rows_cols P M =
     M\<lparr>trip := map (\<lambda>(r, c, d). if r \<in> set P \<or> c \<in> set P then (r, c, Fin 0) else (r, c, d))
                  (trip M)\<rparr>"

text \<open>\<^verbatim>\<open>self.b[ind] = vals[ind]\<close>; numpy raises when the mask has another length.\<close>

definition set_b_masked :: "bool list \<Rightarrow> fl list \<Rightarrow> unit action" where
  "set_b_masked ind vals =
     bind get_b (\<lambda>b.
       if length ind \<noteq> length b then raise IndexError
       else modify (\<lambda>s. s\<lparr>b_vec := Some (mask_assign b ind vals)\<rparr>))"

text \<open>An in-place edit of the matrix object behind a reference.\<close>

definition edit :: "nat \<Rightarrow> (coo \<Rightarrow> coo) \<Rightarrow> unit action" where
  "edit a f = modify (\<lambda>s. s\<lparr>store := (store s)(a := f (store s a))\<rparr>)"

text \<open>The part of \<^verbatim>\<open>_apply_BCs\<close> for \<^verbatim>\<open>pore.bc.value\<close>, statement by statement.\<close>

definition apply_value_BCs :: "fl list \<Rightarrow> unit action" where
  "apply_value_BCs val =
     bind get_A (\<lambda>a.
     bind (\<lambda>s. ret (mean (diagonal (store s a))) s) (\<lambda>f.
     let ind = map isfinite val in
     bind (set_b_masked ind (map (\<lambda>v. fmul v f) val)) (\<lambda>_.
     bind get_b (\<lambda>b.
     let x_BC = mask_assign (zeros (length b)) ind val in
     bind (\<lambda>s. if dim (store s a) \<noteq> length x_BC then raise ValueError s
               else ret (matvec (store s a) x_BC) s) (\<lambda>Ax.
     bind (modify (\<lambda>s. s\<lparr>b_vec := Some (mask_sub b ind Ax)\<rparr>)) (\<lambda>_.
     let P_bc = to_indices ind in
     bind (edit a (zero_rows_cols P_bc)) (\<lambda>_.
     bind (\<lambda>s. let datadiag = diagonal (store s a)
               in if list_ex (\<lambda>p. length datadiag \<le> p) P_bc then raise IndexError s
                  else ret (index_assign datadiag P_bc f) s) (\<lambda>datadiag.
     bind (edit a (\<lambda>M. setdiag M datadiag)) (\<lambda>_.
     edit a eliminate_zeros)))))))))"

text \<open>\<^verbatim>\<open>_apply_BCs\<close>: rate conditions first, then value conditions.\<close>

definition apply_BCs :: "unit action" where
  "apply_BCs =
     bind (\<lambda>s. case props s ''pore.bc.rate'' of
                 None \<Rightarrow> ret () s
               | Some rate \<Rightarrow> set_b_masked (map isfinite rate) rate s) (\<lambda>_ s.
     case props s ''pore.bc.value'' of
       None \<Rightarrow> ret () s
     | Some val \<Rightarrow> apply_value_BCs val s)"

text \<open>\<^verbatim>\<open>_update_A_and_b\<close>.\<close>

definition update_A_and_b :: "unit action" where
  "update_A_and_b = bind build_A (\<lambda>_. bind build_b (\<lambda>_. apply_BCs))"

subsection \<open>Validations\<close>

text \<open>\<^verbatim>\<open>_validate_x0\<close>.\<close>

definition validate_x0 :: "unit action" where
  "validate_x0 =
     bind (getitem ''pore.initial_guess'') (\<lambda>x0.
       if \<not> list_all isfinite x0 then raise (Exception ''x0 contains inf/nan values'')
       else ret ())"

text \<open>\<^verbatim>\<open>_validate_settings\<close>: each setting is compared with \<^verbatim>\<open>None\<close>.\<close>

definition validate_settings :: "unit action" where
  "validate_settings s =
     (if set_quantity s = None
        then raise (Exception '''quantity' hasn't been defined on this algorithm'') s
      else if set_conductance s = None
        then raise (Exception '''conductance' hasn't been defined on this algorithm'') s
      else if set_phase s = None
        then raise (Exception '''phase' hasn't been defined on this algorithm'') s
      else ret () s)"

text \<open>
  \<^verbatim>\<open>_validate_topology_health\<close>. The sum of two boolean arrays is their
  elementwise disjunction; both arrays have one entry per pore.
\<close>

definition clustered_msg :: string where
  "clustered_msg =
     ''Your network is clustered. Run h = net.check_network_health()'' @
     '' followed by op.topotools.trim(net, pores=h['disconnected_pores'])'' @
     '' to make your network fully connected.''"

definition bc_mask :: "fl list \<Rightarrow> fl list \<Rightarrow> bool list" where
  "bc_mask rate val = map (\<lambda>(r, v). \<not> isnan r \<or> \<not> isnan v) (zip rate val)"

definition validate_topology_health :: "unit action" where
  "validate_topology_health =
     bind (getitem ''pore.bc.rate'') (\<lambda>rate.
     bind (getitem ''pore.bc.value'') (\<lambda>val.
       if length rate \<noteq> length val then raise ValueError
       else (\<lambda>s. if \<not> is_fully_connected (Np s) (conns s) (bc_mask rate val)
                 then raise (Exception clustered_msg) s
                 else ret () s)))"

text \<open>
  \<^verbatim>\<open>_validate_data_health\<close>: the topology check, then the finiteness of the
  stored data of \<open>A\<close> and of \<open>b\<close> (\<open>b\<close> is only looked at when \<open>A\<close> is finite). Every path
  of the root-cause search that follows ends in a \<^verbatim>\<open>raise\<close>.
\<close>

definition validate_data_health :: "bool action" where
  "validate_data_health =
     bind validate_topology_health (\<lambda>_.
     bind get_A (\<lambda>a s.
       if data_finite (store s a)
       then bind get_b (\<lambda>b. if list_all isfinite b then ret True else raise FoundNans) s
       else raise FoundNans s))"

subsection \<open>Running the algorithm\<close>

text \<open>
  The solver is a parameter: \<^verbatim>\<open>solver.solve(A, b, x0)\<close> returns the solution
  and an exit code.
\<close>

type_synonym solver = "coo \<Rightarrow> fl list \<Rightarrow> fl list \<Rightarrow> fl list \<times> int"

definition call_solver :: "solver \<Rightarrow> fl list \<Rightarrow> (fl list \<times> int) action" where
  "call_solver solve x0 =
     bind get_A (\<lambda>a.
     bind get_b (\<lambda>b s.
       (Ok (solve (store s a) b x0), s\<lparr>solver_calls := Suc (solver_calls s)\<rparr>)))"

text \<open>\<^verbatim>\<open>w * x_new + (1 - w) * self.x\<close>, elementwise.\<close>

definition relax :: "real \<Rightarrow> fl list \<Rightarrow> fl list \<Rightarrow> fl list" where
  "relax w x_new x_old =
     map (\<lambda>(n, old). fadd (fmul (Fin w) n) (fmul (Fin (1 - w)) old)) (zip x_new x_old)"

text \<open>\<^verbatim>\<open>self.soln[self.settings['quantity']][:] = self.x\<close>.\<close>

definition write_soln :: "fl list \<Rightarrow> unit action" where
  "write_soln x s =
     (case soln s of
        None \<Rightarrow> raise AttributeError s
      | Some c \<Rightarrow> (case sol c (set_quantity s) of
                    None \<Rightarrow> raise (KeyError (case set_quantity s of None \<Rightarrow> [] | Some q \<Rightarrow> q)) s
                  | Some old \<Rightarrow>
                      if length old \<noteq> length x then raise ValueError s
                      else modify (\<lambda>s'. s'\<lparr>soln := Some (c\<lparr>sol := (sol c)(set_quantity s := Some x)\<rparr>)\<rparr>) s))"

definition set_converged :: "bool \<Rightarrow> unit action" where
  "set_converged v s =
     (case soln s of
        None \<Rightarrow> raise AttributeError s
      | Some c \<Rightarrow> modify (\<lambda>s'. s'\<lparr>soln := Some (c\<lparr>is_converged := v\<rparr>)\<rparr>) s)"

text \<open>\<^verbatim>\<open>_run_special\<close>.\<close>

definition run_special :: "solver \<Rightarrow> fl list \<Rightarrow> real \<Rightarrow> unit action" where
  "run_special solve x0 w =
     bind validate_data_health (\<lambda>_.
     bind (call_solver solve x0) (\<lambda>(x_new, exit_code).
     bind get_x (\<lambda>x_old.
     bind (set_x (relax w x_new x_old)) (\<lambda>_.
     bind update_A_and_b (\<lambda>_.
     bind get_x (\<lambda>x.
     bind (write_soln x) (\<lambda>_.
     set_converged (exit_code = 0))))))))"

text \<open>
  Lines 191 and 192 of \<^verbatim>\<open>run\<close>: the initial guess (a copy of the caller's, or
  zeros of the length of \<open>b\<close>) is written to the quantity and to
  \<^verbatim>\<open>pore.initial_guess\<close>.
\<close>

definition write_x0 :: "fl list option \<Rightarrow> fl list action" where
  "write_x0 x0_arg =
     bind (case x0_arg of
             None \<Rightarrow> bind get_b (\<lambda>b. ret (zeros (length b)))
           | Some x0 \<Rightarrow> ret x0) (\<lambda>x0.
     bind (set_x x0) (\<lambda>_.
     bind (setitem ''pore.initial_guess'' x0) (\<lambda>_.
     ret x0)))"

text \<open>Lines 195 to 197: a new solution container holding the initial guess.\<close>

definition init_soln :: "fl list \<Rightarrow> unit action" where
  "init_soln x0 =
     modify (\<lambda>s. s\<lparr>soln := Some \<lparr>sol = (\<lambda>k. None)(set_quantity s := Some x0),
                                  is_converged = False\<rparr>\<rparr>)"

text \<open>\<^verbatim>\<open>run\<close>, with the solver given.\<close>

definition run :: "solver \<Rightarrow> fl list option \<Rightarrow> solution_container action" where
  "run solve x0_arg =
     bind validate_settings (\<lambda>_.
     bind validate_data_health (\<lambda>_.
     bind (write_x0 x0_arg) (\<lambda>x0.
     bind validate_x0 (\<lambda>_.
     bind (init_soln x0) (\<lambda>_.
     bind update_A_and_b (\<lambda>_.
     bind (run_special solve x0 1) (\<lambda>_ s.
       case soln s of None \<Rightarrow> raise AttributeError s | Some c \<Rightarrow> ret c s)))))))"

subsection \<open>Notions used in the statements\<close>

text \<open>The pure matrix and the live matrix of a state, when there is one.\<close>

definition pure_A :: "alg \<Rightarrow> coo option" where
  "pure_A s = (case pure_A_ref s of None \<Rightarrow> None | Some p \<Rightarrow> Some (store s p))"

definition live_A :: "alg \<Rightarrow> coo option" where
  "live_A s = (case A_ref s of None \<Rightarrow> None | Some a \<Rightarrow> Some (store s a))"

text \<open>
  The entry of the pure matrix and of the live matrix of a state, when there is one.
\<close>

definition pure_entry :: "alg \<Rightarrow> nat \<Rightarrow> nat \<Rightarrow> fl option" where
  "pure_entry s i j = (case pure_A_ref s of None \<Rightarrow> None | Some p \<Rightarrow> Some (entry (store s p) i j))"

definition A_entry :: "alg \<Rightarrow> nat \<Rightarrow> nat \<Rightarrow> fl option" where
  "A_entry s i j = (case A_ref s of None \<Rightarrow> None | Some a \<Rightarrow> Some (entry (store s a) i j))"

text \<open>
  \<^verbatim>\<open>_build_A\<close> computes the pure matrix anew when none is cached, when caching
  is off or when the conductance is an iterative property; \<open>cache_after\<close> is the caching
  flag it leaves.
\<close>

definition rebuilds :: "alg \<Rightarrow> bool" where
  "rebuilds s \<longleftrightarrow> pure_A_ref s = None \<or> \<not> set_cache s \<or>
     (case set_conductance s of None \<Rightarrow> False | Some gvals \<Rightarrow> gvals \<in> set (iterative_props s))"

definition cache_after :: "alg \<Rightarrow> bool" where
  "cache_after s \<longleftrightarrow> set_cache s \<and>
     \<not> (case set_conductance s of None \<Rightarrow> False | Some gvals \<Rightarrow> gvals \<in> set (iterative_props s))"

text \<open>The data stored at one position of a matrix.\<close>

definition cells :: "coo \<Rightarrow> nat \<Rightarrow> nat \<Rightarrow> fl list" where
  "cells M i j = map (\<lambda>(r, c, d). d) (filter (\<lambda>(r, c, d). r = i \<and> c = j) (trip M))"

subsection \<open>An example: three pores in a chain\<close>

text \<open>
  The scenario of the specification: pores 0, 1, 2 in a chain, both throats of
  conductance 2, the value 10 imposed at pore 0 and the value 0 at pore 2. The object is
  as \<^verbatim>\<open>__init__\<close> leaves it, with the settings and the boundary values set.
\<close>

definition chain_phase :: "string \<Rightarrow> fl list option" where
  "chain_phase k = (if k = ''throat.diffusive_conductance'' then Some [Fin 2, Fin 2] else None)"

definition chain :: alg where
  "chain = \<lparr>Np = 3, conns = [(0, 1), (1, 2)],
            project = (\<lambda>n. if n = ''phase_01'' then Some chain_phase else None),
            iterative_props = [],
            set_phase = Some ''phase_01'',
            set_quantity = Some ''pore.concentration'',
            set_conductance = Some ''throat.diffusive_conductance'',
            set_cache = True,
            props = (\<lambda>k. if k = ''pore.bc.rate'' then Some [NaN, NaN, NaN]
                        else if k = ''pore.bc.value'' then Some [Fin 10, NaN, Fin 0]
                        else None),
            A_ref = None, pure_A_ref = None, b_vec = None, pure_b = None,
            store = (\<lambda>r. \<lparr>dim = 0, trip = []\<rparr>), next_ref = 0,
            soln = None, solver_calls = 0\<rparr>"

subsection \<open>What an action leaves unchanged\<close>

text \<open>
  An action keeps a relation \<open>R\<close> when every state it ends in, normally or by an
  exception, is related to the state it started from. \<open>same_solution\<close> relates two
  states with the same stored arrays, the same solution container, the same settings
  (caching apart), the same project and as many solver calls.
\<close>

definition keeps :: "(alg \<Rightarrow> alg \<Rightarrow> bool) \<Rightarrow> 'a action \<Rightarrow> bool" where
  "keeps R m \<longleftrightarrow> (\<forall>s. R s (snd (m s)))"

definition same_solution :: "alg \<Rightarrow> alg \<Rightarrow> bool" where
  "same_solution s s' \<longleftrightarrow>
     props s' = props s \<and> soln s' = soln s \<and> solver_calls s' = solver_calls s \<and>
     set_quantity s' = set_quantity s \<and> set_conductance s' = set_conductance s \<and>
     set_phase s' = set_phase s \<and> Np s' = Np s \<and> conns s' = conns s \<and> project s' = project s \<and>
     iterative_props s' = iterative_props s"

subsection \<open>Variations of the example\<close>

text \<open>
  The chain as \<^verbatim>\<open>Transport.__init__\<close> leaves its settings: quantity and
  conductance are the empty string of \<^verbatim>\<open>TransportSettings\<close>.
\<close>

definition unconfigured :: alg where
  "unconfigured = chain\<lparr>set_quantity := Some [], set_conductance := Some []\<rparr>"

text \<open>The chain with the quantity set to \<^verbatim>\<open>None\<close>, and without any boundary value.\<close>

definition chain_unset :: alg where
  "chain_unset = chain\<lparr>set_quantity := None\<rparr>"

definition chain_free :: alg where
  "chain_free = chain\<lparr>props := (props chain)(''pore.bc.value'' := Some [NaN, NaN, NaN])\<rparr>"

text \<open>The chain after an earlier, successful run: the solution 10, 5, 0 is stored.\<close>

definition chain_solved :: alg where
  "chain_solved =
     chain\<lparr>props := (props chain)(''pore.concentration'' := Some [Fin 10, Fin 5, Fin 0]),
           soln := Some \<lparr>sol = (\<lambda>k. None)(Some ''pore.concentration'' := Some [Fin 10, Fin 5, Fin 0]),
                         is_converged = True\<rparr>\<rparr>"

text \<open>A solver that returns its initial guess and reports convergence.\<close>

definition null_solver :: solver where
  "null_solver A b x0 = (x0, 0)"

subsection \<open>Throats of a pore, columns and rows\<close>

text \<open>
  The conductances of the throats stored as \<open>(i, j)\<close>, in the order of the throat
  array; and the conductances of the throats at pore \<open>i\<close> in the order in which the
  adjacency matrix stores them in column \<open>i\<close>: first the throats that end at \<open>i\<close>,
  then those that start there (a throat from \<open>i\<close> to itself is met twice).
\<close>

definition throat_weights :: "(nat \<times> nat) list \<Rightarrow> fl list \<Rightarrow> nat \<Rightarrow> nat \<Rightarrow> fl list" where
  "throat_weights cs g i j = map snd (filter (\<lambda>(c, w). c = (i, j)) (zip cs g))"

definition incident_weights :: "(nat \<times> nat) list \<Rightarrow> fl list \<Rightarrow> nat \<Rightarrow> fl list" where
  "incident_weights cs g i =
     map snd (filter (\<lambda>((a, b), w). b = i) (zip cs g)) @ map snd (filter (\<lambda>((a, b), w). a = i) (zip cs g))"

text \<open>Throat \<open>t\<close> is the only throat between the pores \<open>i\<close> and \<open>j\<close>.\<close>

definition single_throat :: "(nat \<times> nat) list \<Rightarrow> nat \<Rightarrow> nat \<Rightarrow> nat \<Rightarrow> bool" where
  "single_throat cs t i j \<longleftrightarrow>
     t < length cs \<and> (cs ! t = (i, j) \<or> cs ! t = (j, i)) \<and>
     (\<forall>u<length cs. u \<noteq> t \<longrightarrow> cs ! u \<noteq> (i, j) \<and> cs ! u \<noteq> (j, i))"

text \<open>
  No two pores are joined by throats in both directions. This holds in particular when
  every throat is stored with its lower pore first, as OpenPNM keeps them.
\<close>

definition one_way :: "(nat \<times> nat) list \<Rightarrow> bool" where
  "one_way cs \<longleftrightarrow> (\<forall>(a, b) \<in> set cs. a \<noteq> b \<longrightarrow> (b, a) \<notin> set cs)"

text \<open>
  The stored data of a column, with and without the diagonal position, in storage order.
\<close>

definition column :: "coo \<Rightarrow> nat \<Rightarrow> fl list" where
  "column M j = map (\<lambda>(r, c, d). d) (filter (\<lambda>(r, c, d). c = j) (trip M))"

definition off_diagonal_column :: "coo \<Rightarrow> nat \<Rightarrow> fl list" where
  "off_diagonal_column M i = map (\<lambda>(r, c, d). d) (filter (\<lambda>(r, c, d). c = i \<and> r \<noteq> i) (trip M))"

text \<open>
  The row sums of a matrix, as \<^verbatim>\<open>M.sum(axis=1)\<close> adds the stored data of a row
  (in storage order), and as \<^verbatim>\<open>M.toarray().sum(axis=1)\<close> adds the entries of a
  short row (from left to right).
\<close>

definition row_sums :: "coo \<Rightarrow> fl list" where
  "row_sums M =
     map (\<lambda>i. fsum (map (\<lambda>(r, c, d). d) (filter (\<lambda>(r, c, d). r = i) (trip M)))) [0..<dim M]"

definition dense_row_sums :: "coo \<Rightarrow> fl list" where
  "dense_row_sums M = map (\<lambda>i. fsum (map (entry M i) [0..<dim M])) [0..<dim M]"

subsection \<open>Further examples\<close>

text \<open>
  The object of the chain example on another network: \<open>n\<close> pores, the throats \<open>cs\<close>
  and the conductance array \<open>g\<close> on the phase.
\<close>

definition phase_with :: "fl list \<Rightarrow> string \<Rightarrow> fl list option" where
  "phase_with g k = (if k = ''throat.diffusive_conductance'' then Some g else None)"

definition network :: "nat \<Rightarrow> (nat \<times> nat) list \<Rightarrow> fl list \<Rightarrow> alg" where
  "network n cs g =
     chain\<lparr>Np := n, conns := cs,
           project := (\<lambda>nm. if nm = ''phase_01'' then Some (phase_with g) else None)\<rparr>"

text \<open>
  A second run. \<open>chain3\<close> is the chain with both conductances 3, and \<open>good_solver\<close> a
  solver that returns the solution 10, 5, 0 of its system. \<open>chain3_rerun\<close> is the object
  that a first run leaves, after which the conductance of throat 0 has become NaN on the
  phase and caching has been switched off.
\<close>

definition chain3 :: alg where
  "chain3 = network 3 [(0, 1), (1, 2)] [Fin 3, Fin 3]"

definition good_solver :: solver where
  "good_solver A b x0 = ([Fin 10, Fin 5, Fin 0], 0)"

definition chain3_rerun :: alg where
  "chain3_rerun =
     (snd (run good_solver None chain3))
       \<lparr>project := (\<lambda>nm. if nm = ''phase_01'' then Some (phase_with [NaN, Fin 3]) else None),
        set_cache := False\<rparr>"

section \<open>Properties\<close>

subsection \<open>Rounding and sums of floats\<close>

lemma ilog2_up_eq: "2 ^ k \<le> a \<Longrightarrow> a < 2 ^ Suc k \<Longrightarrow> k < n \<Longrightarrow> ilog2_up n a = int k"
proof (induction k arbitrary: n a)
  case 0
  then obtain m where "n = Suc m" by (cases n) auto
  then show ?case using 0 by simp
next
  case (Suc k)
  then obtain m where n: "n = Suc m" by (cases n) auto
  have "2 ^ k \<le> a / 2" "a / 2 < 2 ^ Suc k" "k < m" using Suc.prems n by auto
  then have "ilog2_up m (a / 2) = int k" by (rule Suc.IH)
  moreover have "\<not> a < 2"
  proof -
    have "(1::real) \<le> 2 ^ k" by simp
    then have "(2::real) \<le> 2 ^ Suc k" by simp
    then show ?thesis using Suc.prems(1) by linarith
  qed
  ultimately show ?case using n by simp
qed

lemma ilog2_down_zero: "ilog2_down n 0 = - int n"
  by (induction n) auto

lemma expo_zero: "expo 0 = - 1074"
  by (simp add: expo_def ilog2_def ilog2_down_zero)

lemma rhe_int: "rhe (of_int m) = m"
  by (simp add: rhe_def)

lemma rhe_zero: "rhe 0 = 0"
  using rhe_int[of 0] by simp

lemma pow2_pos: "0 < pow2 e" by (simp add: pow2_def)

lemma round64_zero: "round64 0 = Fin 0"
  by (simp add: round64_def Let_def expo_zero rhe_zero pow2_pos not_le)

lemma expo_up:
  assumes "2 ^ k \<le> \<bar>x\<bar>" "\<bar>x\<bar> < 2 ^ Suc k" "k < 1100"
  shows "expo x = int k - 52"
proof -
  have "(1::real) \<le> 2 ^ k" by simp
  then have "1 \<le> \<bar>x\<bar>" using assms(1) by linarith
  then have "ilog2 \<bar>x\<bar> = int k" using ilog2_up_eq[OF assms] by (simp add: ilog2_def)
  then show ?thesis by (simp add: expo_def)
qed

lemma round64_up:
  assumes "2 ^ k \<le> \<bar>x\<bar>" "\<bar>x\<bar> < 2 ^ Suc k" "k < 1100"
  shows "round64 x =
     (let y = of_int (rhe (x / pow2 (int k - 52))) * pow2 (int k - 52)
      in if pow2 1024 \<le> \<bar>y\<bar> then (if 0 < x then PInf else NInf) else Fin y)"
  by (simp add: round64_def expo_up[OF assms] Let_def)

lemma round64_int:
  assumes "\<bar>n\<bar> < 2 ^ 53"
  shows "round64 (of_int n) = Fin (of_int n)"
proof (cases "n = 0")
  case True
  then show ?thesis by (simp add: round64_zero)
next
  case False
  then have "1 \<le> nat \<bar>n\<bar>" by simp
  then obtain k where k: "2 ^ k \<le> nat \<bar>n\<bar>" "nat \<bar>n\<bar> < 2 ^ (k + 1)"
    using ex_power_ivl1[of 2 "nat \<bar>n\<bar>"] by auto
  have kp: "(2::nat) ^ k < 2 ^ 53"
  proof -
    have "nat \<bar>n\<bar> < 2 ^ 53" using assms by (simp add: nat_less_iff)
    then show ?thesis using k(1) by linarith
  qed
  have k53: "k < 53" by (rule power_less_imp_less_exp[OF _ kp]) simp
  have a: "\<bar>real_of_int n\<bar> = real (nat \<bar>n\<bar>)" by simp
  have lo: "2 ^ k \<le> \<bar>real_of_int n\<bar>"
    unfolding a using k(1) by (metis of_nat_le_iff of_nat_numeral of_nat_power)
  have hi: "\<bar>real_of_int n\<bar> < 2 ^ Suc k"
    unfolding a using k(2) by (metis Suc_eq_plus1 of_nat_less_iff of_nat_numeral of_nat_power)
  have kk: "k < 1100" using k53 by simp
  define j where "j = 52 - k"
  have e: "int k - 52 = - int j" using k53 by (simp add: j_def)
  have p: "pow2 (int k - 52) = 1 / 2 ^ j" by (simp add: e pow2_def)
  have q: "real_of_int n / pow2 (int k - 52) = of_int (n * 2 ^ j)" by (simp add: p)
  have y: "of_int (rhe (real_of_int n / pow2 (int k - 52))) * pow2 (int k - 52) = real_of_int n"
    unfolding q rhe_int by (simp add: p)
  have "\<bar>real_of_int n\<bar> < 2 ^ 53" using assms by (metis of_int_abs of_int_less_numeral_power_cancel_iff)
  also have "(2::real) ^ 53 \<le> 2 ^ 1024" by (rule power_increasing) simp_all
  finally have big: "\<not> pow2 1024 \<le> \<bar>real_of_int n\<bar>" by (simp add: pow2_def)
  show ?thesis
    unfolding round64_up[OF lo hi kk] Let_def y using big by simp
qed

lemma round64_numeral [simp]:
  "(numeral w :: int) < 2 ^ 53 \<Longrightarrow> round64 (numeral w) = Fin (numeral w)"
  "(numeral w :: int) < 2 ^ 53 \<Longrightarrow> round64 (- numeral w) = Fin (- numeral w)"
  "round64 1 = Fin 1" "round64 (- 1) = Fin (- 1)"
  using round64_int[of "numeral w"] round64_int[of "- numeral w"] round64_int[of 1] round64_int[of "- 1"]
  by simp_all

lemma fadd_zero_right: "fadd x (Fin 0) = x" by (cases x) simp_all
lemma fadd_zero_left: "fadd (Fin 0) x = x" by (cases x) simp_all
lemma fadd_commute: "fadd a b = fadd b a" by (cases a; cases b; simp add: add.commute)
lemma fsub_zero: "fsub x (Fin 0) = x" by (simp add: fsub_def fadd_zero_right)
lemma fneg_fneg: "fneg (fneg x) = x" by (cases x) simp_all
lemma fmul_commute: "fmul a b = fmul b a" by (cases a; cases b; simp add: mult.commute)
lemma fmul_zero: "isfinite d \<Longrightarrow> fmul d (Fin 0) = Fin 0" by (cases d) (simp_all add: round64_zero)

lemma fsum_Nil: "fsum [] = Fin 0" by (simp add: fsum_def)
lemma fsum_single: "fsum [x] = x" by (simp add: fsum_def fadd_zero_left)
lemma fsum_snoc: "fsum (xs @ [x]) = fadd (fsum xs) x" by (simp add: fsum_def)

lemma foldl_fadd_zeros: "\<forall>x \<in> set xs. x = Fin 0 \<Longrightarrow> foldl fadd a xs = a"
  by (induction xs arbitrary: a) (simp_all add: fadd_zero_right)

lemma fsum_zeros: "\<forall>x \<in> set xs. x = Fin 0 \<Longrightarrow> fsum xs = Fin 0"
  by (simp add: fsum_def foldl_fadd_zeros)

lemma foldl_fadd_nonzero: "foldl fadd a (filter (\<lambda>d. d \<noteq> Fin 0) xs) = foldl fadd a xs"
  by (induction xs arbitrary: a) (simp_all add: fadd_zero_right)

lemma fsum_filter_nonzero: "fsum (filter (\<lambda>d. d \<noteq> Fin 0) xs) = fsum xs"
  by (simp add: fsum_def foldl_fadd_nonzero)

subsection \<open>Entries of a matrix\<close>

lemma length_col_sums: "length (col_sums m) = dim m" by (simp add: col_sums_def)

lemma length_diagonal: "length (diagonal m) = dim m" by (simp add: diagonal_def)

lemma dim_setdiag: "dim (setdiag M v) = dim M" by (simp add: setdiag_def Let_def)

lemma dim_eliminate_zeros: "dim (eliminate_zeros M) = dim M" by (simp add: eliminate_zeros_def)

lemma dim_laplacian: "dim (laplacian m) = dim m" by (simp add: laplacian_def Let_def dim_setdiag)

lemma entry_cells: "entry M i j = fsum (cells M i j)" by (simp add: entry_def cells_def)

lemma filter_upt_eq: "i < n \<Longrightarrow> filter (\<lambda>k. k = i) [0..<n] = [i]"
proof (induction n)
  case 0 then show ?case by simp
next
  case (Suc n)
  show ?case
  proof (cases "i = n")
    case True
    have "filter (\<lambda>k. k = n) [0..<n] = []" by (simp add: filter_empty_conv)
    with True show ?thesis by simp
  next
    case False
    with Suc have "i < n" by simp
    with Suc.IH False show ?thesis by simp
  qed
qed

lemma filter_absorb: "(\<And>x. P x \<Longrightarrow> Q x) \<Longrightarrow> filter P (filter Q xs) = filter P xs"
  by (induction xs) auto

lemma filter_none: "(\<And>x. x \<in> set xs \<Longrightarrow> \<not> P x) \<Longrightarrow> filter P xs = []"
  by (induction xs) auto

lemma trip_setdiag:
  "trip (setdiag M v) =
     filter (\<lambda>(r, c, d). c \<noteq> r \<or> min (dim M) (length v) \<le> r) (trip M)
       @ map (\<lambda>i. (i, i, v ! i)) [0..<min (dim M) (length v)]"
  by (simp add: setdiag_def Let_def)

lemma cells_setdiag_off:
  assumes ne: "i \<noteq> j"
  shows "cells (setdiag M v) i j = cells M i j"
proof -
  let ?P = "\<lambda>(r, c, d). r = i \<and> c = (j::nat)"
  let ?Q = "\<lambda>(r::nat, c::nat, d::fl). c \<noteq> r \<or> min (dim M) (length v) \<le> r"
  have a: "filter ?P (filter ?Q (trip M)) = filter ?P (trip M)"
    by (rule filter_absorb) (use ne in auto)
  have b: "filter ?P (map (\<lambda>k. (k, k, v ! k)) [0..<min (dim M) (length v)]) = []"
    by (rule filter_none) (use ne in auto)
  show ?thesis
    unfolding cells_def trip_setdiag filter_append a b by simp
qed

lemma cells_map_data:
  "cells (M\<lparr>trip := map (\<lambda>(r, c, d). (r, c, h d)) (trip M)\<rparr>) i j = map h (cells M i j)"
proof -
  have "map (\<lambda>(r, c, d). d) (filter (\<lambda>(r, c, d). r = i \<and> c = j) (map (\<lambda>(r, c, d). (r, c, h d)) xs))
      = map h (map (\<lambda>(r, c, d). d) (filter (\<lambda>(r, c, d). r = i \<and> c = j) xs))" for xs :: "(nat \<times> nat \<times> fl) list"
    by (induction xs) auto
  then show ?thesis by (simp add: cells_def)
qed

lemma dim_adjacency: "create_adjacency_matrix n cs g = Some am \<Longrightarrow> dim am = n"
  by (auto simp: create_adjacency_matrix_def split: if_splits)

subsection \<open>Sequencing and \<^verbatim>\<open>_build_A\<close>\<close>

lemma bind_Ok: "m s = (Ok a, s') \<Longrightarrow> bind m k s = k a s'" by (simp add: bind_def)

lemma bind_Raise: "m s = (Raise e, s') \<Longrightarrow> bind m k s = (Raise e, s')" by (simp add: bind_def)

lemma bind_modify: "bind (modify f) k s = k () (f s)" by (simp add: bind_def modify_def)

lemma bind_ret: "bind (ret a) k s = k a s" by (simp add: bind_def ret_def)

lemma bind_raise: "bind (raise e) k s = (Raise e, s)" by (simp add: bind_def raise_def)

lemma bind_alloc:
  "bind (alloc M) k s = k (next_ref s) (s\<lparr>store := (store s)(next_ref s := M), next_ref := Suc (next_ref s)\<rparr>)"
  by (simp add: bind_def alloc_def)

lemma lookup_conductance_Ok:
  assumes "set_phase s = Some ph" "project s ph = Some phase" "set_conductance s = Some gk" "phase gk = Some g"
  shows "lookup_conductance s = (Ok g, s)"
  using assms by (simp add: lookup_conductance_def lookup_phase_def bind_def)

lemma lookup_conductance_state: "lookup_conductance s = (r, s') \<Longrightarrow> s' = s"
  by (auto simp: lookup_conductance_def lookup_phase_def bind_def split: option.splits)

lemma lookup_conductance_frame:
  assumes "set_phase t = set_phase s" "project t = project s" "set_conductance t = set_conductance s"
      and "lookup_conductance s = (Ok g, s)"
  shows "lookup_conductance t = (Ok g, t)"
  using assms by (auto simp: lookup_conductance_def lookup_phase_def bind_def split: option.splits)

lemma build_A_rebuild:
  assumes rb: "rebuilds s"
      and lk: "lookup_conductance s = (Ok g, s)"
      and am: "create_adjacency_matrix (Np s) (conns s) g = Some am"
  shows "build_A s = (Ok (), s\<lparr>set_cache := cache_after s,
                               pure_A_ref := Some (next_ref s),
                               A_ref := Some (Suc (next_ref s)),
                               store := (store s)(next_ref s := laplacian am, Suc (next_ref s) := laplacian am),
                               next_ref := Suc (Suc (next_ref s))\<rparr>)"
proof -
  note fr = lookup_conductance_frame[OF _ _ _ lk]
  show ?thesis
    using rb am
    by (cases "set_conductance s")
       (auto simp: build_A_def bind_def modify_def alloc_def adjacency_def copy_pure_to_A_def fr
          rebuilds_def cache_after_def)
qed

lemma build_A_pure:
  assumes rb: "rebuilds s"
      and lk: "lookup_conductance s = (Ok g, s)"
      and am: "create_adjacency_matrix (Np s) (conns s) g = Some am"
  shows "fst (build_A s) = Ok ()" "pure_A (snd (build_A s)) = Some (laplacian am)"
    "live_A (snd (build_A s)) = Some (laplacian am)"
  by (simp_all add: build_A_rebuild[OF assms] pure_A_def live_A_def)

lemma adjacency_Some: "length g = length cs \<Longrightarrow> \<exists>am. create_adjacency_matrix n cs g = Some am"
  by (simp add: create_adjacency_matrix_def)

lemma upt3: "[0..<3] = [0, 1, 2]" by (simp add: upt_rec)

lemma chain_lookup: "lookup_conductance chain = (Ok [Fin 2, Fin 2], chain)"
  by (rule lookup_conductance_Ok[where ph="''phase_01''" and phase=chain_phase])
     (simp_all add: chain_def chain_phase_def)

lemma chain_rebuilds: "rebuilds chain" by (simp add: rebuilds_def chain_def)

lemma chain_adjacency:
  "create_adjacency_matrix (Np chain) (conns chain) [Fin 2, Fin 2]
     = Some \<lparr>dim = 3, trip = [(0, 1, Fin 2), (1, 2, Fin 2), (1, 0, Fin 2), (2, 1, Fin 2)]\<rparr>"
  by (simp add: create_adjacency_matrix_def chain_def)

subsection \<open>The pure matrix (claims C2 and C3)\<close>

lemma cells_setdiag_diag:
  assumes "i < dim M" "i < length v"
  shows "cells (setdiag M v) i i = [v ! i]"
proof -
  let ?k = "min (dim M) (length v)"
  let ?P = "\<lambda>(r, c, d). r = i \<and> c = (i::nat)"
  let ?Q = "\<lambda>(r::nat, c::nat, d::fl). c \<noteq> r \<or> ?k \<le> r"
  have ik: "i < ?k" using assms by simp
  have a: "filter ?P (filter ?Q (trip M)) = []"
    by (rule filter_none) (use ik in auto)
  have "filter ?P (map (\<lambda>k. (k, k, v ! k)) ks) = map (\<lambda>k. (k, k, v ! k)) (filter (\<lambda>k. k = i) ks)" for ks
    by (induction ks) auto
  then have b: "filter ?P (map (\<lambda>k. (k, k, v ! k)) [0..<?k]) = [(i, i, v ! i)]"
    using ik by (simp add: filter_upt_eq)
  show ?thesis
    unfolding cells_def trip_setdiag filter_append a b by simp
qed

lemma entry_setdiag_off: "i \<noteq> j \<Longrightarrow> entry (setdiag M v) i j = entry M i j"
  by (simp add: entry_cells cells_setdiag_off)

lemma entry_setdiag_diag: "i < dim M \<Longrightarrow> i < length v \<Longrightarrow> entry (setdiag M v) i i = v ! i"
  by (simp add: entry_cells cells_setdiag_diag fsum_single)

lemma cells_laplacian_off: "i \<noteq> j \<Longrightarrow> cells (laplacian m) i j = map fneg (cells m i j)"
  by (simp add: laplacian_def Let_def cells_setdiag_off cells_map_data)

lemma col_sums_nth: "j < dim M \<Longrightarrow> col_sums M ! j = fsum (column M j)"
  by (simp add: col_sums_def column_def)

lemma entry_laplacian_diag:
  assumes "i < dim m"
  shows "entry (laplacian m) i i = fsub (fsum (column m i)) (entry m i i)"
proof -
  let ?w = "map (\<lambda>(s, d). fsub s d) (zip (col_sums m) (diagonal m))"
  have "?w ! i = fsub (col_sums m ! i) (diagonal m ! i)"
    using assms by (simp add: length_col_sums length_diagonal)
  moreover have "diagonal m ! i = entry m i i" using assms by (simp add: diagonal_def)
  ultimately show ?thesis using assms
    by (simp add: laplacian_def Let_def entry_setdiag_diag length_col_sums length_diagonal col_sums_nth)
qed

lemma trip_adjacency:
  assumes "create_adjacency_matrix n cs g = Some am"
  shows "trip am = map (\<lambda>((a, b), w). (a, b, w)) (zip cs g) @ map (\<lambda>((a, b), w). (b, a, w)) (zip cs g)"
  using assms by (auto simp: create_adjacency_matrix_def split: if_splits)

lemma cells_direct:
  "map (\<lambda>(r, c, d). d) (filter (\<lambda>(r, c, d). r = i \<and> c = j) (map (\<lambda>((a, b), w). (a, b, w)) Z))
     = map snd (filter (\<lambda>(c, w). c = (i, j)) Z)"
  by (induction Z) auto

lemma cells_swapped:
  "map (\<lambda>(r, c, d). d) (filter (\<lambda>(r, c, d). r = i \<and> c = j) (map (\<lambda>((a, b), w). (b, a, w)) Z))
     = map snd (filter (\<lambda>(c, w). c = (j, i)) Z)"
  by (induction Z) auto

lemma cells_adjacency:
  assumes "create_adjacency_matrix n cs g = Some am"
  shows "cells am i j = throat_weights cs g i j @ throat_weights cs g j i"
  unfolding cells_def trip_adjacency[OF assms] filter_append map_append cells_direct cells_swapped
    throat_weights_def ..

lemma column_direct:
  "map (\<lambda>(r, c, d). d) (filter (\<lambda>(r, c, d). c = j) (map (\<lambda>((a, b), w). (a, b, w)) Z))
     = map snd (filter (\<lambda>((a, b), w). b = j) Z)"
  by (induction Z) auto

lemma column_swapped:
  "map (\<lambda>(r, c, d). d) (filter (\<lambda>(r, c, d). c = j) (map (\<lambda>((a, b), w). (b, a, w)) Z))
     = map snd (filter (\<lambda>((a, b), w). a = j) Z)"
  by (induction Z) auto

lemma column_adjacency:
  assumes "create_adjacency_matrix n cs g = Some am"
  shows "column am i = incident_weights cs g i"
  unfolding column_def trip_adjacency[OF assms] filter_append map_append column_direct column_swapped
    incident_weights_def ..

lemma throat_weights_none:
  assumes "(i, j) \<notin> set cs"
  shows "throat_weights cs g i j = []"
proof -
  have "filter (\<lambda>(c, w). c = (i, j)) (zip cs g) = []"
    by (rule filter_none) (use assms in \<open>auto dest: set_zip_leftD\<close>)
  then show ?thesis by (simp add: throat_weights_def)
qed

lemma pure_diagonal:
  assumes am: "create_adjacency_matrix n cs g = Some am" and i: "i < n" and ns: "(i, i) \<notin> set cs"
  shows "entry (laplacian am) i i = fsum (incident_weights cs g i)"
proof -
  have d: "dim am = n" by (rule dim_adjacency[OF am])
  have "entry am i i = Fin 0"
    by (simp add: entry_cells cells_adjacency[OF am] throat_weights_none[OF ns] fsum_Nil)
  then show ?thesis
    using entry_laplacian_diag[of i am] i d by (simp add: column_adjacency[OF am] fsub_zero)
qed

lemma filter_unique_index:
  assumes "t < length xs" "P (xs ! t)" "\<And>u. u < length xs \<Longrightarrow> u \<noteq> t \<Longrightarrow> \<not> P (xs ! u)"
  shows "filter P xs = [xs ! t]"
  using assms
proof (induction xs arbitrary: t)
  case Nil
  then show ?case by simp
next
  case (Cons x xs)
  show ?case
  proof (cases t)
    case 0
    have "filter P xs = []"
    proof (rule filter_none)
      fix y assume "y \<in> set xs"
      then obtain u where "u < length xs" "xs ! u = y" by (auto simp: in_set_conv_nth)
      then show "\<not> P y" using Cons.prems(3)[of "Suc u"] 0 by auto
    qed
    then show ?thesis using Cons.prems(2) 0 by simp
  next
    case (Suc t')
    have "\<not> P x" using Cons.prems(3)[of 0] Suc by auto
    moreover have "filter P xs = [xs ! t']"
    proof (rule Cons.IH)
      show "t' < length xs" using Cons.prems(1) Suc by simp
      show "P (xs ! t')" using Cons.prems(2) Suc by simp
      fix u assume "u < length xs" "u \<noteq> t'"
      then show "\<not> P (xs ! u)" using Cons.prems(3)[of "Suc u"] Suc by auto
    qed
    ultimately show ?thesis using Suc by simp
  qed
qed

lemma throat_weights_single:
  assumes t: "t < length cs" and len: "length g = length cs" and at: "cs ! t = (i, j)"
      and only: "\<And>u. u < length cs \<Longrightarrow> u \<noteq> t \<Longrightarrow> cs ! u \<noteq> (i, j)"
  shows "throat_weights cs g i j = [g ! t]"
proof -
  have "filter (\<lambda>(c, w). c = (i, j)) (zip cs g) = [zip cs g ! t]"
    by (rule filter_unique_index) (use t len at only in auto)
  then show ?thesis using t len by (simp add: throat_weights_def)
qed

lemma throat_weights_absent:
  assumes "\<And>u. u < length cs \<Longrightarrow> cs ! u \<noteq> (i, j)"
  shows "throat_weights cs g i j = []"
  by (rule throat_weights_none) (use assms in \<open>auto simp: in_set_conv_nth\<close>)

lemma cells_single:
  assumes am: "create_adjacency_matrix n cs g = Some am" and len: "length g = length cs"
      and ne: "i \<noteq> j" and st: "single_throat cs t i j"
  shows "cells am i j = [g ! t]" "cells am j i = [g ! t]"
proof -
  have t: "t < length cs" using st by (simp add: single_throat_def)
  have o: "\<And>u. u < length cs \<Longrightarrow> u \<noteq> t \<Longrightarrow> cs ! u \<noteq> (i, j) \<and> cs ! u \<noteq> (j, i)"
    using st by (simp add: single_throat_def)
  consider (a) "cs ! t = (i, j)" | (b) "cs ! t = (j, i)" using st by (auto simp: single_throat_def)
  then have "throat_weights cs g i j @ throat_weights cs g j i = [g ! t]
      \<and> throat_weights cs g j i @ throat_weights cs g i j = [g ! t]"
  proof cases
    case a
    have 1: "throat_weights cs g i j = [g ! t]"
      by (rule throat_weights_single[OF t len a]) (use o in auto)
    have 2: "throat_weights cs g j i = []"
    proof (rule throat_weights_absent)
      fix u assume u: "u < length cs"
      show "cs ! u \<noteq> (j, i)" using o[OF u] a ne by (cases "u = t") auto
    qed
    show ?thesis by (simp add: 1 2)
  next
    case b
    have 1: "throat_weights cs g j i = [g ! t]"
      by (rule throat_weights_single[OF t len b]) (use o in auto)
    have 2: "throat_weights cs g i j = []"
    proof (rule throat_weights_absent)
      fix u assume u: "u < length cs"
      show "cs ! u \<noteq> (i, j)" using o[OF u] b ne by (cases "u = t") auto
    qed
    show ?thesis by (simp add: 1 2)
  qed
  then show "cells am i j = [g ! t]" "cells am j i = [g ! t]"
    by (simp_all add: cells_adjacency[OF am])
qed

lemma pure_single:
  assumes am: "create_adjacency_matrix n cs g = Some am" and len: "length g = length cs"
      and ne: "i \<noteq> j" and st: "single_throat cs t i j"
  shows "entry (laplacian am) i j = fneg (g ! t)" "entry (laplacian am) j i = fneg (g ! t)"
  using ne cells_single[OF am len ne st]
  by (simp_all add: entry_cells cells_laplacian_off fsum_single)

lemma network_lookup: "lookup_conductance (network n cs g) = (Ok g, network n cs g)"
  by (rule lookup_conductance_Ok[where ph="''phase_01''" and phase="phase_with g"])
     (simp_all add: network_def chain_def phase_with_def)

lemma network_rebuilds: "rebuilds (network n cs g)"
  by (simp add: rebuilds_def network_def chain_def)

lemma network_pure:
  assumes "length g = length cs"
  shows "fst (build_A (network n cs g)) = Ok ()"
    "pure_A (snd (build_A (network n cs g))) =
       Some (laplacian \<lparr>dim = n, trip = map (\<lambda>((a, b), w). (a, b, w)) (zip cs g)
                                       @ map (\<lambda>((a, b), w). (b, a, w)) (zip cs g)\<rparr>)"
proof -
  have am: "create_adjacency_matrix (Np (network n cs g)) (conns (network n cs g)) g =
    Some \<lparr>dim = n, trip = map (\<lambda>((a, b), w). (a, b, w)) (zip cs g)
                                       @ map (\<lambda>((a, b), w). (b, a, w)) (zip cs g)\<rparr>"
    using assms by (simp add: create_adjacency_matrix_def network_def)
  show "fst (build_A (network n cs g)) = Ok ()"
    "pure_A (snd (build_A (network n cs g))) =
       Some (laplacian \<lparr>dim = n, trip = map (\<lambda>((a, b), w). (a, b, w)) (zip cs g)
                                       @ map (\<lambda>((a, b), w). (b, a, w)) (zip cs g)\<rparr>)"
    using build_A_pure[OF network_rebuilds network_lookup am] by simp_all
qed

lemma upt2: "[0..<2] = [0, 1]" by (simp add: upt_rec)

lemma upt4: "[0..<4] = [0, 1, 2, 3]" by (simp add: upt_rec)

lemma r_53_1: "round64 9007199254740993 = Fin 9007199254740992"
  by (subst round64_up[where k=53]) (simp_all add: pow2_def rhe_def Let_def)

lemma r_m53_1: "round64 (- 9007199254740993) = Fin (- 9007199254740992)"
  by (subst round64_up[where k=53]) (simp_all add: pow2_def rhe_def Let_def)

lemma r_53_2: "round64 9007199254740994 = Fin 9007199254740994"
  by (subst round64_up[where k=53]) (simp_all add: pow2_def rhe_def Let_def)

lemma r_m53_2: "round64 (- 9007199254740994) = Fin (- 9007199254740994)"
  by (subst round64_up[where k=53]) (simp_all add: pow2_def rhe_def Let_def)

lemma r_54: "round64 18014398509481984 = Fin 18014398509481984"
  by (subst round64_up[where k=54]) (simp_all add: pow2_def rhe_def Let_def)

lemma r_54_1: "round64 18014398509481985 = Fin 18014398509481984"
  by (subst round64_up[where k=54]) (simp_all add: pow2_def rhe_def Let_def)

lemmas r64 = r_53_1 r_m53_1 r_53_2 r_m53_2 r_54 r_54_1 round64_zero

lemmas lap_eval = laplacian_def Let_def setdiag_def col_sums_def diagonal_def entry_def fsum_def
  fsub_def upt2 upt3 upt4 r64

lemma lap_chain:
  "laplacian \<lparr>dim = 3, trip = [(0, 1, Fin 2), (1, 2, Fin 2), (1, 0, Fin 2), (2, 1, Fin 2)]\<rparr>
     = \<lparr>dim = 3, trip = [(0, 1, Fin (- 2)), (1, 2, Fin (- 2)), (1, 0, Fin (- 2)), (2, 1, Fin (- 2)),
                         (0, 0, Fin 2), (1, 1, Fin 4), (2, 2, Fin 2)]\<rparr>"
  by (simp add: lap_eval)

lemma lap_inf:
  "laplacian \<lparr>dim = 3, trip = [(0, 1, PInf), (1, 2, Fin 2), (1, 0, PInf), (2, 1, Fin 2)]\<rparr>
     = \<lparr>dim = 3, trip = [(0, 1, NInf), (1, 2, Fin (- 2)), (1, 0, NInf), (2, 1, Fin (- 2)),
                         (0, 0, PInf), (1, 1, PInf), (2, 2, Fin 2)]\<rparr>"
  by (simp add: lap_eval)

lemma lap_star:
  "laplacian \<lparr>dim = 4, trip = [(0, 2, Fin 1), (1, 2, Fin (2 ^ 53)), (2, 3, Fin 1),
                               (2, 0, Fin 1), (2, 1, Fin (2 ^ 53)), (3, 2, Fin 1)]\<rparr>
     = \<lparr>dim = 4, trip = [(0, 2, Fin (- 1)), (1, 2, Fin (- (2 ^ 53))), (2, 3, Fin (- 1)),
                         (2, 0, Fin (- 1)), (2, 1, Fin (- (2 ^ 53))), (3, 2, Fin (- 1)),
                         (0, 0, Fin 1), (1, 1, Fin (2 ^ 53)), (2, 2, Fin (2 ^ 53)), (3, 3, Fin 1)]\<rparr>"
  by (simp add: lap_eval)

lemma lap_double:
  "laplacian \<lparr>dim = 2, trip = [(0, 1, Fin 1), (0, 1, Fin 1), (1, 0, Fin (2 ^ 53)),
                               (1, 0, Fin 1), (1, 0, Fin 1), (0, 1, Fin (2 ^ 53))]\<rparr>
     = \<lparr>dim = 2, trip = [(0, 1, Fin (- 1)), (0, 1, Fin (- 1)), (1, 0, Fin (- (2 ^ 53))),
                         (1, 0, Fin (- 1)), (1, 0, Fin (- 1)), (0, 1, Fin (- (2 ^ 53))),
                         (0, 0, Fin (2 ^ 53)), (1, 1, Fin (2 ^ 53 + 2))]\<rparr>"
  by (simp add: lap_eval)

lemma lap_loop:
  "laplacian \<lparr>dim = 2, trip = [(0, 0, Fin (2 ^ 53)), (0, 1, Fin 1), (0, 0, Fin (2 ^ 53)), (1, 0, Fin 1)]\<rparr>
     = \<lparr>dim = 2, trip = [(0, 1, Fin (- 1)), (1, 0, Fin (- 1)), (0, 0, Fin 0), (1, 1, Fin 1)]\<rparr>"
  by (simp add: lap_eval)

lemma pure_entry_Some: "pure_A s = Some L \<Longrightarrow> pure_entry s i j = Some (entry L i j)"
  by (auto simp: pure_A_def pure_entry_def split: option.splits)

lemma pure_off_diagonal:
  assumes am: "create_adjacency_matrix n cs g = Some am" and ne: "i \<noteq> j"
  shows "entry (laplacian am) i j = fsum (map fneg (throat_weights cs g i j @ throat_weights cs g j i))"
  using ne by (simp add: entry_cells cells_laplacian_off cells_adjacency[OF am])

lemma one_way_weights:
  assumes ow: "one_way cs" and ne: "i \<noteq> j"
  shows "throat_weights cs g i j = [] \<or> throat_weights cs g j i = []"
proof (cases "(i, j) \<in> set cs")
  case True
  then have "(j, i) \<notin> set cs" using ow ne by (auto simp: one_way_def)
  then show ?thesis by (simp add: throat_weights_none)
next
  case False
  then show ?thesis by (simp add: throat_weights_none)
qed

lemma pure_symmetric:
  assumes am: "create_adjacency_matrix n cs g = Some am" and ow: "one_way cs"
  shows "entry (laplacian am) i j = entry (laplacian am) j i"
proof (cases "i = j")
  case True
  then show ?thesis by simp
next
  case False
  have "throat_weights cs g i j @ throat_weights cs g j i = throat_weights cs g j i @ throat_weights cs g i j"
    using one_way_weights[OF ow False, of g] by auto
  then show ?thesis
    using False pure_off_diagonal[OF am, of i j] pure_off_diagonal[OF am, of j i] by simp
qed

lemma off_diagonal_column_laplacian:
  "off_diagonal_column (laplacian m) i =
     map fneg (map (\<lambda>(r, c, d). d) (filter (\<lambda>(r, c, d). c = i \<and> r \<noteq> i) (trip m)))"
proof -
  let ?w = "map (\<lambda>(s, d). fsub s d) (zip (col_sums m) (diagonal m))"
  let ?neg = "m\<lparr>trip := map (\<lambda>(r, c, d). (r, c, fneg d)) (trip m)\<rparr>"
  let ?P = "\<lambda>(r::nat, c, d::fl). c = i \<and> r \<noteq> i"
  let ?Q = "\<lambda>(r::nat, c::nat, d::fl). c \<noteq> r \<or> min (dim ?neg) (length ?w) \<le> r"
  have a: "filter ?P (filter ?Q (trip ?neg)) = filter ?P (trip ?neg)"
    by (rule filter_absorb) auto
  have b: "filter ?P (map (\<lambda>k. (k, k, ?w ! k)) [0..<min (dim ?neg) (length ?w)]) = []"
    by (rule filter_none) auto
  have c: "map (\<lambda>(r, c, d). d) (filter ?P (map (\<lambda>(r, c, d). (r, c, fneg d)) xs))
      = map fneg (map (\<lambda>(r, c, d). d) (filter ?P xs))" for xs :: "(nat \<times> nat \<times> fl) list"
    by (induction xs) auto
  have "off_diagonal_column (laplacian m) i = map (\<lambda>(r, c, d). d) (filter ?P (trip ?neg))"
    unfolding off_diagonal_column_def laplacian_def Let_def trip_setdiag filter_append a b by simp
  then show ?thesis using c[of "trip m"] by simp
qed

lemma column_no_self:
  assumes am: "create_adjacency_matrix n cs g = Some am" and ns: "(i, i) \<notin> set cs"
  shows "map (\<lambda>(r, c, d). d) (filter (\<lambda>(r, c, d). c = i \<and> r \<noteq> i) (trip am)) = column am i"
proof -
  have "(r, c, d) \<in> set (trip am) \<Longrightarrow> (r, c) \<in> set cs \<or> (c, r) \<in> set cs" for r c d
    unfolding trip_adjacency[OF am] by (auto dest: set_zip_leftD)
  then have "filter (\<lambda>(r, c, d). c = i \<and> r \<noteq> i) (trip am) = filter (\<lambda>(r, c, d). c = i) (trip am)"
    using ns by (intro filter_cong) auto
  then show ?thesis by (simp add: column_def)
qed

lemma map_fneg_fneg: "map fneg (map fneg xs) = xs"
  by (induction xs) (simp_all add: fneg_fneg)

lemma pure_diagonal_column:
  assumes am: "create_adjacency_matrix n cs g = Some am" and i: "i < n" and ns: "(i, i) \<notin> set cs"
  shows "entry (laplacian am) i i = fsum (map fneg (off_diagonal_column (laplacian am) i))"
  by (simp only: off_diagonal_column_laplacian column_no_self[OF am ns] map_fneg_fneg
        pure_diagonal[OF am i ns] column_adjacency[OF am])

text \<open>
  Claim C2, as amended. For every conductance array \<open>g\<close> of length \<open>Nt\<close>,
  \<^verbatim>\<open>_build_A\<close> succeeds and the pure matrix it builds has
  \<^item> at the diagonal position of a pore that has no throat to itself, the floating-point
    sum of the conductances of the throats at that pore, with a plus sign (the Laplacian
    is \<open>D - A\<close>), added in the order in which the adjacency matrix stores its column;
  \<^item> at an off-diagonal position \<open>(i, j)\<close>, the floating-point sum of the negated
    conductances of the throats between \<open>i\<close> and \<open>j\<close>;
  \<^item> where a single throat \<open>t\<close> joins the two pores, \<open>-g[t]\<close> at \<open>(i, j)\<close> and at
    \<open>(j, i)\<close>.
\<close>

theorem build_A_entries:
  assumes "rebuilds s"
      and "lookup_conductance s = (Ok g, s)"
      and "length g = length (conns s)"
  shows "fst (build_A s) = Ok () \<and> (\<exists>L. pure_A (snd (build_A s)) = Some L \<and>
    (\<forall>i<Np s. (i, i) \<notin> set (conns s) \<longrightarrow> entry L i i = fsum (incident_weights (conns s) g i)) \<and>
    (\<forall>i j. i \<noteq> j \<longrightarrow>
        entry L i j = fsum (map fneg (throat_weights (conns s) g i j @ throat_weights (conns s) g j i))) \<and>
    (\<forall>t i j. i \<noteq> j \<and> single_throat (conns s) t i j \<longrightarrow>
        entry L i j = fneg (g ! t) \<and> entry L j i = fneg (g ! t)))"
proof -
  obtain am where am: "create_adjacency_matrix (Np s) (conns s) g = Some am"
    using adjacency_Some[OF assms(3)] by blast
  note b = build_A_pure[OF assms(1,2) am]
  let ?L = "laplacian am"
  have 1: "entry ?L i i = fsum (incident_weights (conns s) g i)"
    if "i < Np s" "(i, i) \<notin> set (conns s)" for i
    by (rule pure_diagonal[OF am that])
  have 2: "entry ?L i j = fsum (map fneg (throat_weights (conns s) g i j @ throat_weights (conns s) g j i))"
    if "i \<noteq> j" for i j
    by (rule pure_off_diagonal[OF am that])
  have 3: "entry ?L i j = fneg (g ! t) \<and> entry ?L j i = fneg (g ! t)"
    if "i \<noteq> j" "single_throat (conns s) t i j" for t i j
    using pure_single[OF am assms(3) that] by simp
  show ?thesis using b(1,2) 1 2 3 by blast
qed

text \<open>
  Claim C3, as amended. For every conductance array \<open>g\<close> of length \<open>Nt\<close>,
  \<^verbatim>\<open>_build_A\<close> succeeds; the pure matrix it builds is symmetric when no two
  pores are joined by throats in both directions; and at each pore that has no throat to
  itself, the diagonal entry is the floating-point sum of the negated off-diagonal data
  of its column, added in storage order. So a column or a row adds up to zero only up to
  the rounding of that sum, and not at all when a conductance is infinite or NaN.
\<close>

theorem build_A_symmetric_columns:
  assumes "rebuilds s"
      and "lookup_conductance s = (Ok g, s)"
      and "length g = length (conns s)"
  shows "fst (build_A s) = Ok () \<and> (\<exists>L. pure_A (snd (build_A s)) = Some L \<and>
    (one_way (conns s) \<longrightarrow> (\<forall>i j. entry L i j = entry L j i)) \<and>
    (\<forall>i<Np s. (i, i) \<notin> set (conns s) \<longrightarrow>
        entry L i i = fsum (map fneg (off_diagonal_column L i))))"
proof -
  obtain am where am: "create_adjacency_matrix (Np s) (conns s) g = Some am"
    using adjacency_Some[OF assms(3)] by blast
  note b = build_A_pure[OF assms(1,2) am]
  let ?L = "laplacian am"
  have 1: "entry ?L i j = entry ?L j i" if "one_way (conns s)" for i j
    by (rule pure_symmetric[OF am that])
  have 2: "entry ?L i i = fsum (map fneg (off_diagonal_column ?L i))"
    if "i < Np s" "(i, i) \<notin> set (conns s)" for i
    by (rule pure_diagonal_column[OF am that])
  show ?thesis using b(1,2) 1 2 by blast
qed

lemma chain_single_throat: "single_throat (conns chain) 0 0 (Suc 0)"
  by (auto simp: single_throat_def chain_def less_Suc_eq)

lemma chain_one_way: "one_way (conns chain)"
  by (simp add: one_way_def chain_def)

text \<open>The chain: the diagonal entry of pore 1 is 2 + 2, the entries between pores 0 and 1 are -2.\<close>

theorem build_A_entries_witness:
  "rebuilds chain \<and> lookup_conductance chain = (Ok [Fin 2, Fin 2], chain) \<and>
   (1, 1) \<notin> set (conns chain) \<and> single_throat (conns chain) 0 0 1 \<and>
   fst (build_A chain) = Ok () \<and>
   (\<exists>L. pure_A (snd (build_A chain)) = Some L \<and> entry L 1 1 = Fin 4 \<and>
        entry L 0 1 = Fin (- 2) \<and> entry L 1 0 = Fin (- 2))"
proof -
  have ns: "(Suc 0, Suc 0) \<notin> set (conns chain)" by (simp add: chain_def)
  have n: "Suc 0 < Np chain" by (simp add: chain_def)
  have i: "fsum (incident_weights (conns chain) [Fin 2, Fin 2] (Suc 0)) = Fin 4"
    by (simp add: incident_weights_def chain_def fsum_def)
  from build_A_entries[OF chain_rebuilds chain_lookup]
  obtain L where L: "fst (build_A chain) = Ok ()" "pure_A (snd (build_A chain)) = Some L"
      "\<forall>i<Np chain. (i, i) \<notin> set (conns chain) \<longrightarrow>
          entry L i i = fsum (incident_weights (conns chain) [Fin 2, Fin 2] i)"
      "\<forall>t i j. i \<noteq> j \<and> single_throat (conns chain) t i j \<longrightarrow>
          entry L i j = fneg ([Fin 2, Fin 2] ! t) \<and> entry L j i = fneg ([Fin 2, Fin 2] ! t)"
    by (auto simp: chain_def)
  have "entry L (Suc 0) (Suc 0) = Fin 4" using L(3) n ns i by auto
  moreover have "entry L 0 (Suc 0) = Fin (- 2) \<and> entry L (Suc 0) 0 = Fin (- 2)"
    using L(4)[rule_format, of 0 "Suc 0" 0] chain_single_throat by simp
  ultimately show ?thesis using chain_rebuilds chain_lookup L(1,2) ns chain_single_throat by auto
qed

text \<open>
  Claim C2 as stated asks for the negative of the sum on the diagonal; on the chain the
  diagonal entry of pore 1 is 4, not -4. And with a throat from pore 0 to itself of
  conductance \<open>2 ^ 53\<close> beside a throat of conductance 1 to pore 1, the diagonal entry of
  pore 0 is 0: the column sum \<open>2 ^ 53 + 2 ^ 53 + 1\<close> is rounded to \<open>2 ^ 54\<close>, and the
  diagonal \<open>2 ^ 54\<close> of the adjacency matrix is subtracted from it.
\<close>

theorem build_A_diagonal_counterexample:
  "fst (build_A chain) = Ok () \<and>
   pure_entry (snd (build_A chain)) 1 1 = Some (Fin 4) \<and>
   fsum (incident_weights (conns chain) [Fin 2, Fin 2] 1) = Fin 4 \<and>
   pure_entry (snd (build_A chain)) 1 1
     \<noteq> Some (fneg (fsum (incident_weights (conns chain) [Fin 2, Fin 2] 1))) \<and>
   fst (build_A (network 2 [(0, 0), (0, 1)] [Fin (2 ^ 53), Fin 1])) = Ok () \<and>
   pure_entry (snd (build_A (network 2 [(0, 0), (0, 1)] [Fin (2 ^ 53), Fin 1]))) 0 0 = Some (Fin 0)"
proof -
  have i: "fsum (incident_weights (conns chain) [Fin 2, Fin 2] (Suc 0)) = Fin 4"
    by (simp add: incident_weights_def chain_def fsum_def)
  note b = build_A_pure[OF chain_rebuilds chain_lookup chain_adjacency]
  have c: "pure_entry (snd (build_A chain)) (Suc 0) (Suc 0) = Some (Fin 4)"
    using pure_entry_Some[OF b(2), of 1 1] lap_chain by (simp add: entry_def fsum_def)
  have "length [Fin (2 ^ 53), Fin 1] = length [(0::nat, 0::nat), (0, 1)]" by simp
  note l = network_pure[OF this, of 2]
  have d: "pure_entry (snd (build_A (network 2 [(0, 0), (0, 1)] [Fin (2 ^ 53), Fin 1]))) 0 0 = Some (Fin 0)"
    using pure_entry_Some[OF l(2), of 0 0] lap_loop by (simp add: entry_def fsum_def)
  show ?thesis using b(1) c i l(1) d by simp
qed

text \<open>The chain: the entries between pores 0 and 1 agree, and the diagonal of pore 1 balances its column.\<close>

theorem build_A_symmetric_columns_witness:
  "rebuilds chain \<and> lookup_conductance chain = (Ok [Fin 2, Fin 2], chain) \<and>
   one_way (conns chain) \<and> (1, 1) \<notin> set (conns chain) \<and>
   fst (build_A chain) = Ok () \<and>
   (\<exists>L. pure_A (snd (build_A chain)) = Some L \<and> entry L 0 1 = entry L 1 0 \<and>
        entry L 1 1 = fsum (map fneg (off_diagonal_column L 1)))"
proof -
  have ns: "(Suc 0, Suc 0) \<notin> set (conns chain)" by (simp add: chain_def)
  have n: "Suc 0 < Np chain" by (simp add: chain_def)
  from build_A_symmetric_columns[OF chain_rebuilds chain_lookup]
  obtain L where L: "fst (build_A chain) = Ok ()" "pure_A (snd (build_A chain)) = Some L"
      "one_way (conns chain) \<longrightarrow> (\<forall>i j. entry L i j = entry L j i)"
      "\<forall>i<Np chain. (i, i) \<notin> set (conns chain) \<longrightarrow>
          entry L i i = fsum (map fneg (off_diagonal_column L i))"
    by (auto simp: chain_def)
  have "entry L 0 (Suc 0) = entry L (Suc 0) 0" using L(3) chain_one_way by simp
  moreover have "entry L (Suc 0) (Suc 0) = fsum (map fneg (off_diagonal_column L (Suc 0)))"
    using L(4) n ns by auto
  ultimately show ?thesis using chain_rebuilds chain_lookup L(1,2) ns chain_one_way by auto
qed

text \<open>
  Claim C3 as stated fails for nonnegative conductances.
  \<^item> On the chain with the conductances \<open>inf\<close> and 2, the rows of pores 0 and 1 sum to
    NaN.
  \<^item> On four pores with the throats \<open>(0, 2)\<close>, \<open>(1, 2)\<close>, \<open>(2, 3)\<close> of conductances 1,
    \<open>2 ^ 53\<close>, 1, the diagonal entry of pore 2 is \<open>2 ^ 53\<close> (the sum \<open>2 ^ 53 + 2\<close> of
    its column lost its last bits twice), and its row sums to -2 when the stored data
    are added in storage order and to -1 when the entries are added from left to right.
  \<^item> With the throats \<open>(0, 1)\<close>, \<open>(0, 1)\<close>, \<open>(1, 0)\<close> of conductances 1, 1, \<open>2 ^ 53\<close>
    the entry at \<open>(0, 1)\<close> is \<open>-(2 ^ 53 + 2)\<close> and the entry at \<open>(1, 0)\<close> is
    \<open>-(2 ^ 53)\<close>: the same data are added in another order.
  \<^item> With a throat from pore 0 to itself of conductance \<open>2 ^ 53\<close> and a throat
    \<open>(0, 1)\<close> of conductance 1, the row of pore 0 sums to -1.
\<close>

theorem build_A_row_sums_counterexample:
  "map_option row_sums (pure_A (snd (build_A (network 3 [(0, 1), (1, 2)] [PInf, Fin 2]))))
     = Some [NaN, NaN, Fin 0] \<and>
   map_option row_sums (pure_A (snd (build_A (network 4 [(0, 2), (1, 2), (2, 3)] [Fin 1, Fin (2 ^ 53), Fin 1]))))
     = Some [Fin 0, Fin 0, Fin (- 2), Fin 0] \<and>
   map_option dense_row_sums (pure_A (snd (build_A (network 4 [(0, 2), (1, 2), (2, 3)] [Fin 1, Fin (2 ^ 53), Fin 1]))))
     = Some [Fin 0, Fin 0, Fin (- 1), Fin 0] \<and>
   pure_entry (snd (build_A (network 2 [(0, 1), (0, 1), (1, 0)] [Fin 1, Fin 1, Fin (2 ^ 53)]))) 0 1
     = Some (Fin (- (2 ^ 53 + 2))) \<and>
   pure_entry (snd (build_A (network 2 [(0, 1), (0, 1), (1, 0)] [Fin 1, Fin 1, Fin (2 ^ 53)]))) 1 0
     = Some (Fin (- (2 ^ 53))) \<and>
   map_option row_sums (pure_A (snd (build_A (network 2 [(0, 0), (0, 1)] [Fin (2 ^ 53), Fin 1]))))
     = Some [Fin (- 1), Fin 0]"
proof -
  have "length [PInf, Fin 2] = length [(0::nat, 1::nat), (1, 2)]" by simp
  note a = network_pure(2)[OF this, of 3]
  have 1: "map_option row_sums (pure_A (snd (build_A (network 3 [(0, 1), (1, 2)] [PInf, Fin 2]))))
     = Some [NaN, NaN, Fin 0]"
    using a lap_inf by (simp add: row_sums_def fsum_def upt3 r64)
  have "length [Fin 1, Fin (2 ^ 53), Fin 1] = length [(0::nat, 2::nat), (1, 2), (2, 3)]" by simp
  note b = network_pure(2)[OF this, of 4]
  have 2: "map_option row_sums (pure_A (snd (build_A (network 4 [(0, 2), (1, 2), (2, 3)] [Fin 1, Fin (2 ^ 53), Fin 1]))))
     = Some [Fin 0, Fin 0, Fin (- 2), Fin 0]"
    using b lap_star by (simp add: row_sums_def fsum_def upt4 r64)
  have 3: "map_option dense_row_sums (pure_A (snd (build_A (network 4 [(0, 2), (1, 2), (2, 3)] [Fin 1, Fin (2 ^ 53), Fin 1]))))
     = Some [Fin 0, Fin 0, Fin (- 1), Fin 0]"
    using b lap_star by (simp add: dense_row_sums_def entry_def fsum_def upt4 r64)
  have "length [Fin 1, Fin 1, Fin (2 ^ 53)] = length [(0::nat, 1::nat), (0, 1), (1, 0)]" by simp
  note c = network_pure(2)[OF this, of 2]
  have 4: "pure_entry (snd (build_A (network 2 [(0, 1), (0, 1), (1, 0)] [Fin 1, Fin 1, Fin (2 ^ 53)]))) 0 1
     = Some (Fin (- (2 ^ 53 + 2)))"
    using pure_entry_Some[OF c, of 0 1] lap_double by (simp add: entry_def fsum_def r64)
  have 5: "pure_entry (snd (build_A (network 2 [(0, 1), (0, 1), (1, 0)] [Fin 1, Fin 1, Fin (2 ^ 53)]))) 1 0
     = Some (Fin (- (2 ^ 53)))"
    using pure_entry_Some[OF c, of 1 0] lap_double by (simp add: entry_def fsum_def r64)
  have "length [Fin (2 ^ 53), Fin 1] = length [(0::nat, 0::nat), (0, 1)]" by simp
  note d = network_pure(2)[OF this, of 2]
  have 6: "map_option row_sums (pure_A (snd (build_A (network 2 [(0, 0), (0, 1)] [Fin (2 ^ 53), Fin 1]))))
     = Some [Fin (- 1), Fin 0]"
    using d lap_loop by (simp add: row_sums_def fsum_def upt2 r64)
  show ?thesis using 1 2 3 4 5 6 by blast
qed

subsection \<open>The validations leave the solution alone\<close>

lemma keepsI: "(\<And>s. R s (snd (m s))) \<Longrightarrow> keeps R m" by (simp add: keeps_def)

lemma keepsD: "keeps R m \<Longrightarrow> R s (snd (m s))" by (simp add: keeps_def)

lemma keeps_bind:
  assumes tr: "\<And>a b c. R a b \<Longrightarrow> R b c \<Longrightarrow> R a c"
      and m: "keeps R m" and k: "\<And>a. keeps R (k a)"
  shows "keeps R (bind m k)"
proof (rule keepsI)
  fix s
  obtain r s1 where ms: "m s = (r, s1)" by (cases "m s")
  have 1: "R s s1" using keepsD[OF m, of s] ms by simp
  show "R s (snd (bind m k s))"
  proof (cases r)
    case (Ok a)
    have "R s1 (snd (k a s1))" using keepsD[OF k] .
    then show ?thesis using ms Ok 1 tr by (auto simp: bind_def)
  next
    case (Raise e)
    then show ?thesis using ms 1 by (simp add: bind_def)
  qed
qed

lemma same_solution_trans: "same_solution a b \<Longrightarrow> same_solution b c \<Longrightarrow> same_solution a c"
  by (simp add: same_solution_def)

lemma same_solution_refl: "same_solution s s" by (simp add: same_solution_def)

lemmas ss_bind = keeps_bind[of same_solution, OF same_solution_trans]

lemma ss_ret: "keeps same_solution (ret a)" by (simp add: keeps_def ret_def same_solution_def)

lemma ss_raise: "keeps same_solution (raise e)" by (simp add: keeps_def raise_def same_solution_def)

lemma ss_modify: "(\<And>s. same_solution s (f s)) \<Longrightarrow> keeps same_solution (modify f)"
  by (simp add: keeps_def modify_def)

lemma ss_alloc: "keeps same_solution (alloc M)"
  by (simp add: keeps_def alloc_def same_solution_def)

lemma ss_getitem: "keeps same_solution (getitem k)"
  by (auto simp: keeps_def getitem_def same_solution_def split: option.splits)

lemma ss_if: "keeps same_solution m1 \<Longrightarrow> keeps same_solution m2 \<Longrightarrow> keeps same_solution (if c then m1 else m2)"
  by simp

lemma ss_state_if:
  "keeps same_solution m1 \<Longrightarrow> keeps same_solution m2 \<Longrightarrow> keeps same_solution (\<lambda>s. if c s then m1 s else m2 s)"
  by (simp add: keeps_def)

lemma ss_lookup_conductance: "keeps same_solution lookup_conductance"
  by (auto simp: keeps_def lookup_conductance_def lookup_phase_def bind_def same_solution_def
      split: option.splits)

lemma ss_adjacency: "keeps same_solution (adjacency g)"
  by (auto simp: keeps_def adjacency_def same_solution_def split: option.splits)

lemma ss_copy: "keeps same_solution copy_pure_to_A"
  by (auto simp: keeps_def copy_pure_to_A_def bind_def alloc_def modify_def same_solution_def
      split: option.splits)

lemma ss_build_A: "keeps same_solution build_A"
  unfolding build_A_def
  by (intro ss_bind ss_modify ss_state_if ss_lookup_conductance ss_adjacency ss_alloc ss_copy ss_ret)
     (auto simp: same_solution_def ret_def keeps_def)

lemma ss_build_b: "keeps same_solution build_b"
  unfolding build_b_def by (intro ss_modify) (simp add: same_solution_def Let_def)

lemma ss_get_A: "keeps same_solution get_A"
proof (rule keepsI)
  fix s
  show "same_solution s (snd (get_A s))"
  proof (cases "A_ref s")
    case None
    have "keeps same_solution (bind build_A (\<lambda>_ s'. (case A_ref s' of Some a \<Rightarrow> (Ok a, s')
                                                   | None \<Rightarrow> (Raise TypeError, s'))))"
      by (intro ss_bind ss_build_A) (auto simp: keeps_def same_solution_def split: option.splits)
    then show ?thesis using None by (simp add: get_A_def keeps_def)
  next
    case (Some a)
    then show ?thesis by (simp add: get_A_def same_solution_def)
  qed
qed

lemma ss_get_b: "keeps same_solution get_b"
proof (rule keepsI)
  fix s
  show "same_solution s (snd (get_b s))"
  proof (cases "b_vec s")
    case None
    have "keeps same_solution (bind build_b (\<lambda>_ s'. (case b_vec s' of Some b \<Rightarrow> (Ok b, s')
                                                   | None \<Rightarrow> (Raise TypeError, s'))))"
      by (intro ss_bind ss_build_b) (auto simp: keeps_def same_solution_def split: option.splits)
    then show ?thesis using None by (simp add: get_b_def keeps_def)
  next
    case (Some a)
    then show ?thesis by (simp add: get_b_def same_solution_def)
  qed
qed

lemma ss_topology: "keeps same_solution validate_topology_health"
  unfolding validate_topology_health_def
  by (intro ss_bind ss_getitem ss_if ss_raise ss_state_if ss_ret)

lemma ss_data_health: "keeps same_solution validate_data_health"
  unfolding validate_data_health_def
  by (intro ss_bind ss_topology ss_get_A ss_state_if ss_get_b ss_if ss_ret ss_raise)

lemma ss_settings: "validate_settings s = (r, s') \<Longrightarrow> s' = s"
  by (auto simp: validate_settings_def raise_def ret_def split: if_splits)

subsection \<open>The error paths of \<^verbatim>\<open>run\<close> (claims C5, C6 and C8)\<close>

lemma run_settings_raise:
  assumes "validate_settings s = (Raise e, s')"
  shows "run solve x0 s = (Raise e, s)"
  using assms ss_settings[OF assms] by (simp add: run_def bind_def)

lemma run_health_raise:
  assumes vs: "validate_settings s = (Ok (), s)"
      and dh: "validate_data_health s = (Raise e, s1)"
  shows "run solve x0 s = (Raise e, s1)" "same_solution s s1"
proof -
  show "run solve x0 s = (Raise e, s1)" using vs dh by (simp add: run_def bind_def)
  show "same_solution s s1" using keepsD[OF ss_data_health, of s] dh by simp
qed

lemma settings_Ok_quantity: "validate_settings s = (Ok (), s') \<Longrightarrow> \<exists>q. set_quantity s = Some q"
  by (auto simp: validate_settings_def raise_def ret_def split: if_splits)

lemma write_x0_Some:
  assumes "set_quantity s = Some q"
  shows "write_x0 (Some v) s = (Ok v, s\<lparr>props := (props s)(q := Some v, ''pore.initial_guess'' := Some v)\<rparr>)"
  using assms by (simp add: write_x0_def bind_def ret_def set_x_def setitem_def)

lemma validate_x0_raise:
  assumes "props s ''pore.initial_guess'' = Some v" "\<not> list_all isfinite v"
  shows "validate_x0 s = (Raise (Exception ''x0 contains inf/nan values''), s)"
  using assms by (simp add: validate_x0_def bind_def getitem_def raise_def)

lemma validate_x0_Ok:
  assumes "props s ''pore.initial_guess'' = Some v" "list_all isfinite v"
  shows "validate_x0 s = (Ok (), s)"
  using assms by (simp add: validate_x0_def bind_def getitem_def ret_def)

lemma run_x0_raise:
  assumes vs: "validate_settings s = (Ok (), s)"
      and dh: "validate_data_health s = (Ok r, s1)"
      and q: "set_quantity s = Some q"
      and nf: "\<not> list_all isfinite v"
  shows "run solve (Some v) s =
           (Raise (Exception ''x0 contains inf/nan values''),
            s1\<lparr>props := (props s)(q := Some v, ''pore.initial_guess'' := Some v)\<rparr>)"
    and "soln s1 = soln s" and "solver_calls s1 = solver_calls s"
proof -
  have ss: "same_solution s s1" using keepsD[OF ss_data_health, of s] dh by simp
  then have q1: "set_quantity s1 = Some q" and p1: "props s1 = props s"
    using q by (simp_all add: same_solution_def)
  let ?s2 = "s1\<lparr>props := (props s1)(q := Some v, ''pore.initial_guess'' := Some v)\<rparr>"
  have w: "write_x0 (Some v) s1 = (Ok v, ?s2)" by (rule write_x0_Some[OF q1])
  have x: "validate_x0 ?s2 = (Raise (Exception ''x0 contains inf/nan values''), ?s2)"
    by (rule validate_x0_raise[OF _ nf]) simp
  show "run solve (Some v) s =
           (Raise (Exception ''x0 contains inf/nan values''),
            s1\<lparr>props := (props s)(q := Some v, ''pore.initial_guess'' := Some v)\<rparr>)"
    using vs dh w x p1 by (simp add: run_def bind_def)
  show "soln s1 = soln s" "solver_calls s1 = solver_calls s"
    using ss by (simp_all add: same_solution_def)
qed

lemma write_x0_None:
  assumes "write_x0 None s = (Ok v, s1)"
  shows "list_all isfinite v \<and> props s1 ''pore.initial_guess'' = Some v"
proof -
  obtain r s0 where gb: "get_b s = (r, s0)" by (cases "get_b s")
  show ?thesis
  proof (cases r)
    case (Ok b)
    then show ?thesis using assms gb
      by (auto simp: write_x0_def bind_def ret_def set_x_def setitem_def zeros_def list_all_iff
          split: option.splits)
  next
    case (Raise e)
    then show ?thesis using assms gb by (simp add: write_x0_def bind_def)
  qed
qed

lemma write_x0_Some_guess:
  assumes "write_x0 (Some x0) s = (Ok v, s1)"
  shows "v = x0 \<and> props s1 ''pore.initial_guess'' = Some x0"
  using assms
  by (auto simp: write_x0_def bind_def ret_def set_x_def setitem_def split: option.splits)

lemma chain_connected: "is_fully_connected 3 [(0, Suc 0), (Suc 0, 2)] [True, False, True]"
  by code_simp

lemma chain_mask: "bc_mask [NaN, NaN, NaN] [Fin 10, NaN, Fin 0] = [True, False, True]"
  by (simp add: bc_mask_def)

lemma topology_Ok:
  assumes "props s ''pore.bc.rate'' = Some rate" "props s ''pore.bc.value'' = Some val"
      and "length rate = length val"
      and "is_fully_connected (Np s) (conns s) (bc_mask rate val)"
  shows "validate_topology_health s = (Ok (), s)"
  using assms by (simp add: validate_topology_health_def bind_def getitem_def ret_def)

lemma topology_Raise:
  assumes "props s ''pore.bc.rate'' = Some rate" "props s ''pore.bc.value'' = Some val"
      and "length rate = length val"
      and "\<not> is_fully_connected (Np s) (conns s) (bc_mask rate val)"
  shows "validate_topology_health s = (Raise (Exception clustered_msg), s)"
  using assms by (simp add: validate_topology_health_def bind_def getitem_def raise_def)

lemma chain_solved_settings: "validate_settings chain_solved = (Ok (), chain_solved)"
  by (simp add: validate_settings_def chain_solved_def chain_def ret_def)

text \<open>
  Claim C6 at the object that was never configured: \<^verbatim>\<open>_validate_settings\<close>
  compares with \<^verbatim>\<open>None\<close> and lets the empty strings pass; \<^verbatim>\<open>run\<close> goes
  on into \<^verbatim>\<open>_build_A\<close>, where the lookup of the conductance raises a
  \<^verbatim>\<open>KeyError\<close>.
\<close>

theorem run_unconfigured:
  "validate_settings unconfigured = (Ok (), unconfigured) \<and>
   run solve x0 unconfigured = (Raise (KeyError []), unconfigured)"
proof -
  have vs: "validate_settings unconfigured = (Ok (), unconfigured)"
    by (simp add: validate_settings_def unconfigured_def chain_def ret_def)
  have top: "validate_topology_health unconfigured = (Ok (), unconfigured)"
    by (rule topology_Ok[where rate="[NaN, NaN, NaN]" and val="[Fin 10, NaN, Fin 0]"])
       (simp_all add: unconfigured_def chain_def chain_mask chain_connected)
  have lk: "lookup_conductance unconfigured = (Raise (KeyError []), unconfigured)"
    by (simp add: lookup_conductance_def lookup_phase_def bind_def unconfigured_def chain_def
        chain_phase_def)
  have bA: "build_A unconfigured = (Raise (KeyError []), unconfigured)"
    using lk by (simp add: build_A_def bind_def modify_def unconfigured_def chain_def)
  have "A_ref unconfigured = None" by (simp add: unconfigured_def chain_def)
  then have gA: "get_A unconfigured = (Raise (KeyError []), unconfigured)"
    using bA by (simp add: get_A_def bind_def)
  have dh: "validate_data_health unconfigured = (Raise (KeyError []), unconfigured)"
    using top gA by (simp add: validate_data_health_def bind_def)
  show ?thesis using vs dh by (simp add: run_def bind_def)
qed

lemma get_b_Ok: "\<exists>b s1. get_b s = (Ok b, s1) \<and> set_quantity s1 = set_quantity s \<and> props s1 = props s"
  by (cases "b_vec s") (auto simp: get_b_def bind_def build_b_def modify_def Let_def)

lemma write_x0_None_Ok:
  assumes q: "set_quantity s = Some q"
  shows "\<exists>n s1. write_x0 None s = (Ok (zeros n), s1) \<and> props s1 ''pore.initial_guess'' = Some (zeros n)"
proof -
  obtain b s0 where gb: "get_b s = (Ok b, s0)" "set_quantity s0 = set_quantity s"
    using get_b_Ok by blast
  then show ?thesis using q
    by (auto simp: write_x0_def bind_def ret_def set_x_def setitem_def)
qed

lemma zeros_finite: "list_all isfinite (zeros n)" by (simp add: zeros_def list_all_iff)

text \<open>
  Claim C8. With a NaN or an infinity in \<open>x0\<close>, \<^verbatim>\<open>run\<close> raises and the solver
  has not been called; with an all-finite \<open>x0\<close>, or without one (zeros are used then),
  the initial guess is written and \<^verbatim>\<open>_validate_x0\<close> passes.
\<close>

theorem run_x0_validation:
  "(\<not> list_all isfinite x0 \<longrightarrow>
      (\<exists>e. fst (run solve (Some x0) s) = Raise e) \<and>
      solver_calls (snd (run solve (Some x0) s)) = solver_calls s) \<and>
   (list_all isfinite x0 \<and> set_quantity s \<noteq> None \<longrightarrow>
      (\<exists>s1. write_x0 (Some x0) s = (Ok x0, s1) \<and> validate_x0 s1 = (Ok (), s1))) \<and>
   (set_quantity s \<noteq> None \<longrightarrow>
      (\<exists>n s1. write_x0 None s = (Ok (zeros n), s1) \<and> validate_x0 s1 = (Ok (), s1)))"
proof (intro conjI impI)
  assume nf: "\<not> list_all isfinite x0"
  obtain r s' where vs: "validate_settings s = (r, s')" by (cases "validate_settings s")
  have s': "s' = s" using ss_settings[OF vs] .
  have "(\<exists>e. fst (run solve (Some x0) s) = Raise e) \<and>
      solver_calls (snd (run solve (Some x0) s)) = solver_calls s"
  proof (cases r)
    case (Raise e)
    then show ?thesis using run_settings_raise[of s e s' solve "Some x0"] vs by simp
  next
    case (Ok u)
    then have vs': "validate_settings s = (Ok (), s)" using vs s' by simp
    obtain q where q: "set_quantity s = Some q" using settings_Ok_quantity[OF vs'] by blast
    obtain r1 s1 where dh: "validate_data_health s = (r1, s1)" by (cases "validate_data_health s")
    show ?thesis
    proof (cases r1)
      case (Raise e)
      then show ?thesis
        using run_health_raise(1)[OF vs', of e s1 solve "Some x0"] run_health_raise(2)[OF vs', of e s1] dh
        by (simp add: same_solution_def)
    next
      case (Ok t)
      then show ?thesis
        using run_x0_raise(1)[OF vs' _ q nf, of t s1 solve] run_x0_raise(3)[OF vs' _ q nf, of t s1] dh
        by simp
    qed
  qed
  then show "\<exists>e. fst (run solve (Some x0) s) = Raise e"
    and "solver_calls (snd (run solve (Some x0) s)) = solver_calls s" by simp_all
next
  assume a: "list_all isfinite x0 \<and> set_quantity s \<noteq> None"
  then obtain q where q: "set_quantity s = Some q" by auto
  let ?s1 = "s\<lparr>props := (props s)(q := Some x0, ''pore.initial_guess'' := Some x0)\<rparr>"
  have "validate_x0 ?s1 = (Ok (), ?s1)" by (rule validate_x0_Ok[where v=x0]) (use a in simp_all)
  then show "\<exists>s1. write_x0 (Some x0) s = (Ok x0, s1) \<and> validate_x0 s1 = (Ok (), s1)"
    using write_x0_Some[OF q] by blast
next
  assume "set_quantity s \<noteq> None"
  then obtain q where q: "set_quantity s = Some q" by auto
  obtain n s1 where w: "write_x0 None s = (Ok (zeros n), s1)" "props s1 ''pore.initial_guess'' = Some (zeros n)"
    using write_x0_None_Ok[OF q] by blast
  have "validate_x0 s1 = (Ok (), s1)" by (rule validate_x0_Ok[OF w(2) zeros_finite])
  then show "\<exists>n s1. write_x0 None s = (Ok (zeros n), s1) \<and> validate_x0 s1 = (Ok (), s1)"
    using w(1) by blast
qed

lemma chain_free_disconnected: "\<not> is_fully_connected 3 [(0, Suc 0), (Suc 0, 2)] [False, False, False]"
  by code_simp

lemma chain_free_health:
  "validate_data_health chain_free = (Raise (Exception clustered_msg), chain_free)"
proof -
  have "validate_topology_health chain_free = (Raise (Exception clustered_msg), chain_free)"
    by (rule topology_Raise[where rate="[NaN, NaN, NaN]" and val="[NaN, NaN, NaN]"])
       (simp_all add: chain_free_def chain_def bc_mask_def chain_free_disconnected)
  then show ?thesis by (simp add: validate_data_health_def bind_def)
qed

theorem run_x0_validation_witness:
  "\<not> list_all isfinite [NaN, Fin 0, Fin 0] \<and>
   (\<exists>e. fst (run null_solver (Some [NaN, Fin 0, Fin 0]) chain) = Raise e) \<and>
   solver_calls (snd (run null_solver (Some [NaN, Fin 0, Fin 0]) chain)) = 0 \<and>
   (\<exists>s1. write_x0 (Some [Fin 0, Fin 0, Fin 0]) chain = (Ok [Fin 0, Fin 0, Fin 0], s1) \<and>
         validate_x0 s1 = (Ok (), s1)) \<and>
   (\<exists>n s1. write_x0 None chain = (Ok (zeros n), s1) \<and> validate_x0 s1 = (Ok (), s1))"
proof -
  have nf: "\<not> list_all isfinite [NaN, Fin 0, Fin 0]" by simp
  have f: "list_all isfinite [Fin 0, Fin 0, Fin 0] \<and> set_quantity chain \<noteq> None"
    by (simp add: chain_def)
  have c: "solver_calls chain = 0" by (simp add: chain_def)
  show ?thesis
    using run_x0_validation[of "[NaN, Fin 0, Fin 0]" null_solver chain]
      run_x0_validation[of "[Fin 0, Fin 0, Fin 0]" null_solver chain] nf f c
    by simp
qed

subsection \<open>Failures of \<^verbatim>\<open>run\<close> after the initial guess (claim C5)\<close>

lemma replicate3: "replicate 3 x = [x, x, x]" by (simp add: numeral_3_eq_3)

lemmas run_eval = round64_zero replicate3 run_def bind_def ret_def raise_def modify_def alloc_def getitem_def setitem_def
  get_x_def set_x_def lookup_phase_def lookup_conductance_def adjacency_def copy_pure_to_A_def
  build_A_def build_b_def get_A_def get_b_def to_indices_def mask_assign_def mask_sub_def
  index_assign_def zero_rows_cols_def set_b_masked_def edit_def apply_value_BCs_def apply_BCs_def
  update_A_and_b_def validate_x0_def validate_settings_def bc_mask_def validate_topology_health_def
  validate_data_health_def call_solver_def relax_def write_soln_def set_converged_def
  run_special_def write_x0_def init_soln_def create_adjacency_matrix_def laplacian_def setdiag_def
  col_sums_def diagonal_def entry_def matvec_def eliminate_zeros_def data_finite_def fsum_def
  fsub_def mean_def zeros_def Let_def upt3 chain_connected

lemma prev_fst:
  "fst (run good_solver None chain3) =
     Ok \<lparr>sol = (\<lambda>k. None)(Some ''pore.concentration'' := Some [Fin 10, Fin 5, Fin 0]),
         is_converged = True\<rparr>"
  by (simp add: chain3_def network_def chain_def phase_with_def good_solver_def run_eval)

lemma rerun_before:
  "props chain3_rerun ''pore.concentration'' = Some [Fin 10, Fin 5, Fin 0]"
  "soln chain3_rerun = Some \<lparr>sol = (\<lambda>k. None)(Some ''pore.concentration'' := Some [Fin 10, Fin 5, Fin 0]),
         is_converged = True\<rparr>"
  by (simp_all add: chain3_rerun_def chain3_def network_def chain_def phase_with_def good_solver_def run_eval)

lemma rerun_run:
  "fst (run null_solver None chain3_rerun) = Raise FoundNans"
  "props (snd (run null_solver None chain3_rerun)) ''pore.concentration'' = Some [Fin 0, Fin 0, Fin 0]"
  "soln (snd (run null_solver None chain3_rerun)) = Some \<lparr>sol = (\<lambda>k. None)(Some ''pore.concentration'' := Some [Fin 0, Fin 0, Fin 0]),
         is_converged = False\<rparr>"
  by (simp_all add: chain3_rerun_def chain3_def network_def chain_def phase_with_def good_solver_def run_eval)

lemma ss_set_b_masked: "keeps same_solution (set_b_masked ind vals)"
  unfolding set_b_masked_def
  by (intro ss_bind ss_get_b ss_if ss_raise ss_modify) (simp_all add: same_solution_def)

lemma ss_edit: "keeps same_solution (edit a f)"
  unfolding edit_def by (intro ss_modify) (simp add: same_solution_def)

lemma ss_ret_state: "keeps same_solution (\<lambda>s. ret (f s) s)"
  by (simp add: keeps_def ret_def same_solution_def)

lemma ss_check_state: "keeps same_solution (\<lambda>s. if c s then raise e s else ret (f s) s)"
  by (simp add: keeps_def ret_def raise_def same_solution_def)

lemma ss_apply_value_BCs: "keeps same_solution (apply_value_BCs val)"
  unfolding apply_value_BCs_def Let_def
  by (intro ss_bind ss_get_A ss_ret_state ss_set_b_masked ss_get_b ss_check_state ss_edit ss_modify)
     (simp_all add: same_solution_def)

lemma ss_apply_BCs: "keeps same_solution apply_BCs"
proof -
  have 1: "keeps same_solution (\<lambda>s. case props s ''pore.bc.rate'' of
                 None \<Rightarrow> ret () s
               | Some rate \<Rightarrow> set_b_masked (map isfinite rate) rate s)"
  proof (rule keepsI)
    fix s
    show "same_solution s (snd (case props s ''pore.bc.rate'' of
                 None \<Rightarrow> ret () s
               | Some rate \<Rightarrow> set_b_masked (map isfinite rate) rate s))"
      by (cases "props s ''pore.bc.rate''") (simp_all add: keepsD[OF ss_set_b_masked] keepsD[OF ss_ret])
  qed
  have 2: "keeps same_solution (\<lambda>s. case props s ''pore.bc.value'' of
       None \<Rightarrow> ret () s
     | Some val \<Rightarrow> apply_value_BCs val s)"
  proof (rule keepsI)
    fix s
    show "same_solution s (snd (case props s ''pore.bc.value'' of
       None \<Rightarrow> ret () s
     | Some val \<Rightarrow> apply_value_BCs val s))"
      by (cases "props s ''pore.bc.value''") (simp_all add: keepsD[OF ss_apply_value_BCs] keepsD[OF ss_ret])
  qed
  show ?thesis unfolding apply_BCs_def by (intro ss_bind 1 2)
qed

lemma ss_update: "keeps same_solution update_A_and_b"
  unfolding update_A_and_b_def by (intro ss_bind ss_build_A ss_build_b ss_apply_BCs)

lemma write_x0_effect:
  assumes w: "write_x0 x0 s = (Ok v, s')" and q: "set_quantity s = Some q"
  shows "props s' = (props s)(q := Some v, ''pore.initial_guess'' := Some v)"
    "soln s' = soln s" "solver_calls s' = solver_calls s" "set_quantity s' = Some q"
proof -
  have "props s' = (props s)(q := Some v, ''pore.initial_guess'' := Some v) \<and>
    soln s' = soln s \<and> solver_calls s' = solver_calls s \<and> set_quantity s' = Some q"
  proof (cases x0)
    case None
    obtain r s0 where gb: "get_b s = (r, s0)" by (cases "get_b s")
    have ss: "same_solution s s0" using keepsD[OF ss_get_b, of s] gb by simp
    show ?thesis
    proof (cases r)
      case (Ok b)
      then show ?thesis using w None gb ss q
        by (auto simp: write_x0_def bind_def ret_def set_x_def setitem_def same_solution_def)
    next
      case (Raise e)
      then show ?thesis using w None gb by (simp add: write_x0_def bind_def)
    qed
  next
    case (Some x)
    then show ?thesis using w q
      by (auto simp: write_x0_def bind_def ret_def set_x_def setitem_def)
  qed
  then show "props s' = (props s)(q := Some v, ''pore.initial_guess'' := Some v)"
    "soln s' = soln s" "solver_calls s' = solver_calls s" "set_quantity s' = Some q"
    by simp_all
qed

lemma run_second_health:
  assumes vs: "validate_settings s = (Ok (), s)"
      and dh: "validate_data_health s = (Ok r, s1)"
      and q: "set_quantity s = Some q"
      and w: "write_x0 x0 s1 = (Ok v, s2)"
      and vx: "validate_x0 s2 = (Ok (), s2)"
      and up: "update_A_and_b (snd (init_soln v s2)) = (Ok (), s3)"
      and dh2: "validate_data_health s3 = (Raise e, s4)"
  shows "run solve x0 s = (Raise e, s4)"
    and "props s4 = (props s)(q := Some v, ''pore.initial_guess'' := Some v)"
    and "soln s4 = Some \<lparr>sol = (\<lambda>k. None)(Some q := Some v), is_converged = False\<rparr>"
    and "solver_calls s4 = solver_calls s"
proof -
  have s01: "same_solution s s1" using keepsD[OF ss_data_health, of s] dh by simp
  then have q1: "set_quantity s1 = Some q" using q by (simp add: same_solution_def)
  note e = write_x0_effect[OF w q1]
  let ?s2' = "s2\<lparr>soln := Some \<lparr>sol = (\<lambda>k. None)(set_quantity s2 := Some v), is_converged = False\<rparr>\<rparr>"
  have i: "init_soln v s2 = (Ok (), ?s2')" by (simp add: init_soln_def modify_def)
  have up': "update_A_and_b ?s2' = (Ok (), s3)" using up by (simp add: i)
  have s23: "same_solution ?s2' s3" using keepsD[OF ss_update, of ?s2'] up' by simp
  have s34: "same_solution s3 s4" using keepsD[OF ss_data_health, of s3] dh2 by simp
  show "run solve x0 s = (Raise e, s4)"
    using vs dh w vx i up' dh2 by (simp add: run_def run_special_def bind_def)
  show "props s4 = (props s)(q := Some v, ''pore.initial_guess'' := Some v)"
    using s01 s23 s34 e(1) by (simp add: same_solution_def)
  show "soln s4 = Some \<lparr>sol = (\<lambda>k. None)(Some q := Some v), is_converged = False\<rparr>"
    using s23 s34 e(4) by (simp add: same_solution_def)
  show "solver_calls s4 = solver_calls s"
    using s01 s23 s34 e(3) by (simp add: same_solution_def)
qed

lemma chain_solved_health:
  "validate_data_health chain_solved = (Ok True, snd (validate_data_health chain_solved))"
  by (simp add: prod_eq_iff) (simp add: chain_solved_def chain_def chain_phase_def run_eval)

text \<open>
  Claim C5 as stated fails in two places. On the initial guess: \<^verbatim>\<open>run\<close> writes
  \<open>x0\<close> to the quantity before \<^verbatim>\<open>_validate_x0\<close> looks at it; on the solved
  chain, a run with a NaN in \<open>x0\<close> raises, and the stored quantity 10, 5, 0 has been
  replaced by \<open>x0\<close>. On the second data-health validation, the one of
  \<^verbatim>\<open>_run_special\<close>: on \<open>chain3_rerun\<close> the first validation reads the matrix
  of the earlier run and passes, the matrix is then rebuilt from the conductances NaN
  and 3, and the exception is raised when the stored quantity 10, 5, 0 has been
  overwritten with the initial guess and the solution container of the earlier run
  replaced by a new one.
\<close>

theorem run_overwrites_quantity_counterexample:
  "fst (run null_solver (Some [NaN, Fin 0, Fin 0]) chain_solved)
     = Raise (Exception ''x0 contains inf/nan values'') \<and>
   props chain_solved ''pore.concentration'' = Some [Fin 10, Fin 5, Fin 0] \<and>
   props (snd (run null_solver (Some [NaN, Fin 0, Fin 0]) chain_solved)) ''pore.concentration''
     = Some [NaN, Fin 0, Fin 0] \<and>
   fst (run good_solver None chain3)
     = Ok \<lparr>sol = (\<lambda>k. None)(Some ''pore.concentration'' := Some [Fin 10, Fin 5, Fin 0]),
           is_converged = True\<rparr> \<and>
   props chain3_rerun ''pore.concentration'' = Some [Fin 10, Fin 5, Fin 0] \<and>
   soln chain3_rerun
     = Some \<lparr>sol = (\<lambda>k. None)(Some ''pore.concentration'' := Some [Fin 10, Fin 5, Fin 0]),
             is_converged = True\<rparr> \<and>
   fst (validate_data_health chain3_rerun) = Ok True \<and>
   fst (run null_solver None chain3_rerun) = Raise FoundNans \<and>
   props (snd (run null_solver None chain3_rerun)) ''pore.concentration''
     = Some [Fin 0, Fin 0, Fin 0] \<and>
   soln (snd (run null_solver None chain3_rerun))
     = Some \<lparr>sol = (\<lambda>k. None)(Some ''pore.concentration'' := Some [Fin 0, Fin 0, Fin 0]),
             is_converged = False\<rparr>"
proof -
  have q: "set_quantity chain_solved = Some ''pore.concentration''"
    by (simp add: chain_solved_def chain_def)
  have nf: "\<not> list_all isfinite [NaN, Fin 0, Fin 0]" by simp
  note r = run_x0_raise(1)[OF chain_solved_settings chain_solved_health q nf, of null_solver]
  have a: "fst (run null_solver (Some [NaN, Fin 0, Fin 0]) chain_solved)
     = Raise (Exception ''x0 contains inf/nan values'') \<and>
   props chain_solved ''pore.concentration'' = Some [Fin 10, Fin 5, Fin 0] \<and>
   props (snd (run null_solver (Some [NaN, Fin 0, Fin 0]) chain_solved)) ''pore.concentration''
     = Some [NaN, Fin 0, Fin 0]"
    by (simp add: r) (simp add: chain_solved_def)
  have h: "fst (validate_data_health chain3_rerun) = Ok True"
    by (simp add: chain3_rerun_def chain3_def network_def chain_def phase_with_def good_solver_def run_eval)
  show ?thesis using a prev_fst rerun_before rerun_run h by simp
qed

text \<open>
  Claim C5, as amended.
  \<^item> A failure of the settings validation leaves the whole state as it was.
  \<^item> A failure of the data-health validation that precedes the initial guess (topology,
    non-finite \<open>A\<close> or \<open>b\<close>) leaves the stored arrays and the solution container as
    they were.
  \<^item> A non-finite initial guess, of the length of the pore arrays, is rejected after the
    quantity and \<^verbatim>\<open>pore.initial_guess\<close> have been overwritten with it, and
    before the solution container is replaced.
  \<^item> A failure of the data-health validation of \<^verbatim>\<open>_run_special\<close> (after \<open>A\<close>
    and \<open>b\<close> have been rebuilt) is raised when the quantity and
    \<^verbatim>\<open>pore.initial_guess\<close> hold the initial guess and the solution container
    has been replaced by a new one that holds the initial guess and is not converged; the
    solver has not been called.
\<close>

theorem run_error_paths:
  "(\<forall>e s'. validate_settings s = (Raise e, s') \<longrightarrow> run solve x0 s = (Raise e, s)) \<and>
   (\<forall>e s1. validate_settings s = (Ok (), s) \<and> validate_data_health s = (Raise e, s1) \<longrightarrow>
       run solve x0 s = (Raise e, s1) \<and> props s1 = props s \<and> soln s1 = soln s) \<and>
   (\<forall>r s1 q v. validate_settings s = (Ok (), s) \<and> validate_data_health s = (Ok r, s1) \<and>
         set_quantity s = Some q \<and> x0 = Some v \<and> length v = Np s \<and> \<not> list_all isfinite v \<longrightarrow>
       fst (run solve x0 s) = Raise (Exception ''x0 contains inf/nan values'') \<and>
       soln (snd (run solve x0 s)) = soln s \<and>
       props (snd (run solve x0 s)) = (props s)(q := Some v, ''pore.initial_guess'' := Some v)) \<and>
   (\<forall>r s1 q v s2 s3 e s4. validate_settings s = (Ok (), s) \<and> validate_data_health s = (Ok r, s1) \<and>
         set_quantity s = Some q \<and> write_x0 x0 s1 = (Ok v, s2) \<and> validate_x0 s2 = (Ok (), s2) \<and>
         update_A_and_b (snd (init_soln v s2)) = (Ok (), s3) \<and>
         validate_data_health s3 = (Raise e, s4) \<longrightarrow>
       run solve x0 s = (Raise e, s4) \<and>
       props s4 = (props s)(q := Some v, ''pore.initial_guess'' := Some v) \<and>
       soln s4 = Some \<lparr>sol = (\<lambda>k. None)(Some q := Some v), is_converged = False\<rparr> \<and>
       solver_calls s4 = solver_calls s)"
proof (intro conjI allI impI)
  fix e s' assume "validate_settings s = (Raise e, s')"
  then show "run solve x0 s = (Raise e, s)" by (rule run_settings_raise)
next
  fix e s1 assume a: "validate_settings s = (Ok (), s) \<and> validate_data_health s = (Raise e, s1)"
  then show "run solve x0 s = (Raise e, s1)" by (simp add: run_health_raise(1))
  from a have "same_solution s s1" by (simp add: run_health_raise(2))
  then show "props s1 = props s" "soln s1 = soln s" by (simp_all add: same_solution_def)
next
  fix r s1 q v
  assume a: "validate_settings s = (Ok (), s) \<and> validate_data_health s = (Ok r, s1) \<and>
         set_quantity s = Some q \<and> x0 = Some v \<and> length v = Np s \<and> \<not> list_all isfinite v"
  then have vs: "validate_settings s = (Ok (), s)" and dh: "validate_data_health s = (Ok r, s1)"
    and q: "set_quantity s = Some q" and x: "x0 = Some v" and nf: "\<not> list_all isfinite v"
    by simp_all
  note r = run_x0_raise(1)[OF vs dh q nf, of solve]
  note r2 = run_x0_raise(2)[OF vs dh q nf]
  show "fst (run solve x0 s) = Raise (Exception ''x0 contains inf/nan values'')"
    by (simp add: x r)
  show "soln (snd (run solve x0 s)) = soln s" by (simp add: x r r2)
  show "props (snd (run solve x0 s)) = (props s)(q := Some v, ''pore.initial_guess'' := Some v)"
    by (simp add: x r)
next
  fix r s1 q v s2 s3 e s4
  assume a: "validate_settings s = (Ok (), s) \<and> validate_data_health s = (Ok r, s1) \<and>
         set_quantity s = Some q \<and> write_x0 x0 s1 = (Ok v, s2) \<and> validate_x0 s2 = (Ok (), s2) \<and>
         update_A_and_b (snd (init_soln v s2)) = (Ok (), s3) \<and>
         validate_data_health s3 = (Raise e, s4)"
  then have vs: "validate_settings s = (Ok (), s)" and dh: "validate_data_health s = (Ok r, s1)"
    and q: "set_quantity s = Some q" and w: "write_x0 x0 s1 = (Ok v, s2)"
    and vx: "validate_x0 s2 = (Ok (), s2)"
    and up: "update_A_and_b (snd (init_soln v s2)) = (Ok (), s3)"
    and dh2: "validate_data_health s3 = (Raise e, s4)"
    by simp_all
  note t = run_second_health[OF vs dh q w vx up dh2]
  show "run solve x0 s = (Raise e, s4)" by (rule t(1))
  show "props s4 = (props s)(q := Some v, ''pore.initial_guess'' := Some v)" by (rule t(2))
  show "soln s4 = Some \<lparr>sol = (\<lambda>k. None)(Some q := Some v), is_converged = False\<rparr>" by (rule t(3))
  show "solver_calls s4 = solver_calls s" by (rule t(4))
qed

lemmas rerun_eval = chain3_rerun_def chain3_def network_def chain_def phase_with_def good_solver_def
  run_eval

text \<open>
  The four cases on the examples: the quantity set to \<^verbatim>\<open>None\<close>, the chain
  without boundary values, a NaN in the initial guess, and the second run on
  \<open>chain3_rerun\<close>.
\<close>

theorem run_error_paths_witness:
  "run null_solver None chain_unset
     = (Raise (Exception '''quantity' hasn't been defined on this algorithm''), chain_unset) \<and>
   run null_solver None chain_free = (Raise (Exception clustered_msg), chain_free) \<and>
   fst (run null_solver (Some [NaN, Fin 0, Fin 0]) chain_solved)
     = Raise (Exception ''x0 contains inf/nan values'') \<and>
   soln (snd (run null_solver (Some [NaN, Fin 0, Fin 0]) chain_solved)) = soln chain_solved \<and>
   props (snd (run null_solver (Some [NaN, Fin 0, Fin 0]) chain_solved)) ''pore.initial_guess''
     = Some [NaN, Fin 0, Fin 0] \<and>
   fst (validate_data_health chain3_rerun) = Ok True \<and>
   fst (run null_solver None chain3_rerun) = Raise FoundNans \<and>
   props (snd (run null_solver None chain3_rerun))
     = (props chain3_rerun)(''pore.concentration'' := Some [Fin 0, Fin 0, Fin 0],
                            ''pore.initial_guess'' := Some [Fin 0, Fin 0, Fin 0]) \<and>
   soln (snd (run null_solver None chain3_rerun))
     = Some \<lparr>sol = (\<lambda>k. None)(Some ''pore.concentration'' := Some [Fin 0, Fin 0, Fin 0]),
             is_converged = False\<rparr> \<and>
   solver_calls (snd (run null_solver None chain3_rerun)) = solver_calls chain3_rerun"
proof -
  have a: "validate_settings chain_unset
      = (Raise (Exception '''quantity' hasn't been defined on this algorithm''), chain_unset)"
    by (simp add: validate_settings_def chain_unset_def chain_def raise_def)
  have 1: "run null_solver None chain_unset
     = (Raise (Exception '''quantity' hasn't been defined on this algorithm''), chain_unset)"
    using run_error_paths[of chain_unset null_solver None] a by blast
  have b: "validate_settings chain_free = (Ok (), chain_free)"
    by (simp add: validate_settings_def chain_free_def chain_def ret_def)
  have 2: "run null_solver None chain_free = (Raise (Exception clustered_msg), chain_free)"
    using run_error_paths[of chain_free null_solver None] b chain_free_health by blast
  have q: "set_quantity chain_solved = Some ''pore.concentration''"
    by (simp add: chain_solved_def chain_def)
  have nf: "length [NaN, Fin 0, Fin 0] = Np chain_solved \<and> \<not> list_all isfinite [NaN, Fin 0, Fin 0]"
    by (simp add: chain_solved_def chain_def)
  let ?x = "Some [NaN, Fin 0, Fin 0]"
  have 3: "fst (run null_solver ?x chain_solved) = Raise (Exception ''x0 contains inf/nan values'') \<and>
       soln (snd (run null_solver ?x chain_solved)) = soln chain_solved \<and>
       props (snd (run null_solver ?x chain_solved))
         = (props chain_solved)(''pore.concentration'' := Some [NaN, Fin 0, Fin 0],
                                ''pore.initial_guess'' := Some [NaN, Fin 0, Fin 0])"
    using run_error_paths[of chain_solved null_solver ?x] chain_solved_settings chain_solved_health q nf
    by blast
  let ?s1 = "snd (validate_data_health chain3_rerun)"
  let ?s2 = "snd (write_x0 None ?s1)"
  let ?v = "[Fin 0, Fin 0, Fin 0]"
  let ?s3 = "snd (update_A_and_b (snd (init_soln ?v ?s2)))"
  let ?s4 = "snd (validate_data_health ?s3)"
  have h1: "validate_settings chain3_rerun = (Ok (), chain3_rerun)"
    by (simp add: prod_eq_iff) (simp add: rerun_eval)
  have h2: "validate_data_health chain3_rerun = (Ok True, ?s1)"
    by (simp add: prod_eq_iff) (simp add: rerun_eval)
  have h3: "set_quantity chain3_rerun = Some ''pore.concentration''"
    by (simp add: rerun_eval)
  have h4: "write_x0 None ?s1 = (Ok ?v, ?s2)"
    by (simp add: prod_eq_iff) (simp add: rerun_eval)
  have h5: "validate_x0 ?s2 = (Ok (), ?s2)"
    by (simp add: prod_eq_iff) (simp add: rerun_eval)
  have h6: "update_A_and_b (snd (init_soln ?v ?s2)) = (Ok (), ?s3)"
    by (simp add: prod_eq_iff) (simp add: rerun_eval)
  have h7: "validate_data_health ?s3 = (Raise FoundNans, ?s4)"
    by (simp add: prod_eq_iff) (simp add: rerun_eval)
  have 4: "run null_solver None chain3_rerun = (Raise FoundNans, ?s4) \<and>
       props ?s4 = (props chain3_rerun)(''pore.concentration'' := Some ?v, ''pore.initial_guess'' := Some ?v) \<and>
       soln ?s4 = Some \<lparr>sol = (\<lambda>k. None)(Some ''pore.concentration'' := Some ?v), is_converged = False\<rparr> \<and>
       solver_calls ?s4 = solver_calls chain3_rerun"
    using run_error_paths[of chain3_rerun null_solver None] h1 h2 h3 h4 h5 h6 h7 by blast
  have 5: "fst (validate_data_health chain3_rerun) = Ok True" using h2 by (simp add: prod_eq_iff)
  show ?thesis using 1 2 3 4 5 by simp
qed

end
